theory Spec2Isabelle
  imports Main "HOL-Library.AList"
begin

section \<open>JavaScript values\<close>

text \<open>
  The values the helpers handle are what \<^verbatim>\<open>JSON.parse\<close> produces, and \<^verbatim>\<open>undefined\<close>
  (what reading an absent property gives). Numbers are integers throughout: fractions,
  \<^verbatim>\<open>NaN\<close> and the infinities are outside the model. A string is a list of 8-bit code
  units. An object is the list of its own properties in insertion order; its keys are
  distinct in every value the code builds. Properties inherited from
  \<^verbatim>\<open>Object.prototype\<close> are not modelled (the code reads none of them), and keys that
  look like array indices, which JavaScript lists before the others, stay where they were
  inserted.
\<close>

datatype jsval = JUndefined | JNull | JBool bool | JNum int | JStr string
  | JArr "jsval list" | JObj "(string \<times> jsval) list"

datatype js_error = IOError string | SyntaxError | TypeError | TimeoutError | Error string

text \<open>\<^verbatim>\<open>!v\<close> is \<open>\<not> truthy v\<close>.\<close>

fun truthy :: "jsval \<Rightarrow> bool" where
  "truthy JUndefined = False"
| "truthy JNull = False"
| "truthy (JBool b) = b"
| "truthy (JNum n) = (n \<noteq> 0)"
| "truthy (JStr s) = (s \<noteq> [])"
| "truthy (JArr xs) = True"
| "truthy (JObj kvs) = True"

definition digits10 :: string where
  "digits10 = ''0123456789''"

definition hex_digits :: string where
  "hex_digits = ''0123456789abcdef''"

fun show_nat :: "nat \<Rightarrow> string" where
  "show_nat n = (if n < 10 then [digits10 ! n] else show_nat (n div 10) @ [digits10 ! (n mod 10)])"

definition show_int :: "int \<Rightarrow> string" where
  "show_int i = (if i < 0 then CHR ''-'' # show_nat (nat (- i)) else show_nat (nat i))"

definition digit_val :: "char \<Rightarrow> nat option" where
  "digit_val c =
     (let n = (of_char c :: nat) in if 48 \<le> n \<and> n \<le> 57 then Some (n - 48) else None)"

definition digits_val :: "string \<Rightarrow> nat" where
  "digits_val ds = foldl (\<lambda>n c. 10 * n + (case digit_val c of None \<Rightarrow> 0 | Some d \<Rightarrow> d)) 0 ds"

text \<open>
  A property key names an array element when it is the canonical decimal form of an
  index (\<^verbatim>\<open>"0"\<close>, \<^verbatim>\<open>"17"\<close>, but not \<^verbatim>\<open>"01"\<close> or \<^verbatim>\<open>"-1"\<close>).
\<close>

definition array_index :: "string \<Rightarrow> nat option" where
  "array_index k =
     (if k \<noteq> [] \<and> list_all (\<lambda>c. digit_val c \<noteq> None) k \<and> (length k = 1 \<or> hd k \<noteq> CHR ''0'')
      then Some (digits_val k) else None)"

text \<open>
  \<^verbatim>\<open>v[k]\<close>: reading a property of \<^verbatim>\<open>null\<close> or \<^verbatim>\<open>undefined\<close> throws a TypeError; an
  absent property reads as \<^verbatim>\<open>undefined\<close>.
\<close>

fun get_prop :: "jsval \<Rightarrow> string \<Rightarrow> js_error + jsval" where
  "get_prop JUndefined k = Inl TypeError"
| "get_prop JNull k = Inl TypeError"
| "get_prop (JBool b) k = Inr JUndefined"
| "get_prop (JNum n) k = Inr JUndefined"
| "get_prop (JStr s) k =
     (if k = ''length'' then Inr (JNum (int (length s)))
      else (case array_index k of
              None \<Rightarrow> Inr JUndefined
            | Some i \<Rightarrow> Inr (if i < length s then JStr [s ! i] else JUndefined)))"
| "get_prop (JArr xs) k =
     (if k = ''length'' then Inr (JNum (int (length xs)))
      else (case array_index k of
              None \<Rightarrow> Inr JUndefined
            | Some i \<Rightarrow> Inr (if i < length xs then xs ! i else JUndefined)))"
| "get_prop (JObj kvs) k = Inr (case map_of kvs k of None \<Rightarrow> JUndefined | Some v \<Rightarrow> v)"

section \<open>JSON text\<close>

text \<open>
  \<^verbatim>\<open>JSON.stringify(value, null, 2)\<close> and \<^verbatim>\<open>JSON.parse(text)\<close> of the platform, for the
  values above. \<^verbatim>\<open>JSON.stringify(undefined)\<close> is \<^verbatim>\<open>undefined\<close>, not a text (\<open>None\<close>); an
  \<^verbatim>\<open>undefined\<close> property is left out and an \<^verbatim>\<open>undefined\<close> array element is written
  \<^verbatim>\<open>null\<close>. The parser reads the JSON grammar with integer numbers and \<^verbatim>\<open>\u00XX\<close> escapes;
  a repeated key keeps its first position and its last value. Its fuel is twice the length
  of the text, more than the number of nested calls a text of that length can cause.
\<close>

fun join :: "'a list \<Rightarrow> 'a list list \<Rightarrow> 'a list" where
  "join sep [] = []"
| "join sep [x] = x"
| "join sep (x # y # ys) = x @ sep @ join sep (y # ys)"

definition escape_char :: "char \<Rightarrow> string" where
  "escape_char c =
     (if c = CHR 0x22 then [CHR 0x5C, CHR 0x22]
      else if c = CHR 0x5C then [CHR 0x5C, CHR 0x5C]
      else if c = CHR 0x08 then [CHR 0x5C, CHR ''b'']
      else if c = CHR 0x0C then [CHR 0x5C, CHR ''f'']
      else if c = CHR 0x0A then [CHR 0x5C, CHR ''n'']
      else if c = CHR 0x0D then [CHR 0x5C, CHR ''r'']
      else if c = CHR 0x09 then [CHR 0x5C, CHR ''t'']
      else if (of_char c :: nat) < 32
        then [CHR 0x5C, CHR ''u'', CHR ''0'', CHR ''0'',
              hex_digits ! (of_char c div 16), hex_digits ! (of_char c mod 16)]
      else [c])"

definition quote :: "string \<Rightarrow> string" where
  "quote s = CHR 0x22 # concat (map escape_char s) @ [CHR 0x22]"

definition spaces :: "nat \<Rightarrow> string" where
  "spaces n = replicate n CHR '' ''"

fun stringify_at :: "nat \<Rightarrow> jsval \<Rightarrow> string option"
  and stringify_items :: "nat \<Rightarrow> jsval list \<Rightarrow> string list"
  and stringify_fields :: "nat \<Rightarrow> (string \<times> jsval) list \<Rightarrow> string list" where
  "stringify_at ind JUndefined = None"
| "stringify_at ind JNull = Some ''null''"
| "stringify_at ind (JBool b) = Some (if b then ''true'' else ''false'')"
| "stringify_at ind (JNum n) = Some (show_int n)"
| "stringify_at ind (JStr s) = Some (quote s)"
| "stringify_at ind (JArr xs) =
     (case stringify_items (ind + 2) xs of
        [] \<Rightarrow> Some ''[]''
      | items \<Rightarrow> Some (''['' @ [CHR 0x0A] @ join ('','' @ [CHR 0x0A]) items
                       @ [CHR 0x0A] @ spaces ind @ '']''))"
| "stringify_at ind (JObj kvs) =
     (case stringify_fields (ind + 2) kvs of
        [] \<Rightarrow> Some ''{}''
      | fields \<Rightarrow> Some (''{'' @ [CHR 0x0A] @ join ('','' @ [CHR 0x0A]) fields
                        @ [CHR 0x0A] @ spaces ind @ ''}''))"
| "stringify_items ind [] = []"
| "stringify_items ind (x # xs) =
     (spaces ind @ (case stringify_at ind x of None \<Rightarrow> ''null'' | Some t \<Rightarrow> t))
       # stringify_items ind xs"
| "stringify_fields ind [] = []"
| "stringify_fields ind ((k, v) # kvs) =
     (case stringify_at ind v of
        None \<Rightarrow> stringify_fields ind kvs
      | Some t \<Rightarrow> (spaces ind @ quote k @ '': '' @ t) # stringify_fields ind kvs)"

definition JSON_stringify :: "jsval \<Rightarrow> string option" where
  "JSON_stringify v = stringify_at 0 v"

definition is_ws :: "char \<Rightarrow> bool" where
  "is_ws c = (c = CHR '' '' \<or> c = CHR 0x09 \<or> c = CHR 0x0A \<or> c = CHR 0x0D)"

definition skip_ws :: "string \<Rightarrow> string" where
  "skip_ws s = dropWhile is_ws s"

definition hex_val :: "char \<Rightarrow> nat option" where
  "hex_val c =
     (let n = (of_char c :: nat) in
      if 48 \<le> n \<and> n \<le> 57 then Some (n - 48)
      else if 97 \<le> n \<and> n \<le> 102 then Some (n - 87)
      else if 65 \<le> n \<and> n \<le> 70 then Some (n - 55)
      else None)"

fun parse_chars :: "string \<Rightarrow> string \<Rightarrow> (string \<times> string) option" where
  "parse_chars acc [] = None"
| "parse_chars acc (c # s) =
     (if c = CHR 0x22 then Some (acc, s)
      else if (of_char c :: nat) < 32 then None
      else if c \<noteq> CHR 0x5C then parse_chars (acc @ [c]) s
      else (case s of
              [] \<Rightarrow> None
            | e # r \<Rightarrow>
                if e = CHR 0x22 \<or> e = CHR 0x5C \<or> e = CHR ''/'' then parse_chars (acc @ [e]) r
                else if e = CHR ''b'' then parse_chars (acc @ [CHR 0x08]) r
                else if e = CHR ''f'' then parse_chars (acc @ [CHR 0x0C]) r
                else if e = CHR ''n'' then parse_chars (acc @ [CHR 0x0A]) r
                else if e = CHR ''r'' then parse_chars (acc @ [CHR 0x0D]) r
                else if e = CHR ''t'' then parse_chars (acc @ [CHR 0x09]) r
                else if e = CHR ''u'' then
                  (case map hex_val (take 4 r) of
                     [Some a, Some b, Some c, Some d] \<Rightarrow>
                       if a = 0 \<and> b = 0 then parse_chars (acc @ [char_of (16 * c + d)]) (drop 4 r)
                       else None
                   | _ \<Rightarrow> None)
                else None))"

definition parse_digits :: "string \<Rightarrow> (nat \<times> string) option" where
  "parse_digits s =
     (let ds = takeWhile (\<lambda>c. digit_val c \<noteq> None) s; r = dropWhile (\<lambda>c. digit_val c \<noteq> None) s
      in if ds = [] \<or> (length ds > 1 \<and> hd ds = CHR ''0'') then None
         else if r \<noteq> [] \<and> hd r \<in> {CHR ''.'', CHR ''e'', CHR ''E''} then None
         else Some (digits_val ds, r))"

definition parse_literal :: "string \<Rightarrow> jsval \<Rightarrow> string \<Rightarrow> (jsval \<times> string) option" where
  "parse_literal word v s =
     (if take (length word) s = word then Some (v, drop (length word) s) else None)"

fun parse_value :: "nat \<Rightarrow> string \<Rightarrow> (jsval \<times> string) option"
  and parse_elements :: "nat \<Rightarrow> jsval list \<Rightarrow> string \<Rightarrow> (jsval \<times> string) option"
  and parse_members :: "nat \<Rightarrow> (string \<times> jsval) list \<Rightarrow> string \<Rightarrow> (jsval \<times> string) option" where
  "parse_value 0 s = None"
| "parse_value (Suc fuel) s =
     (case skip_ws s of
        [] \<Rightarrow> None
      | c # r \<Rightarrow>
          if c = CHR ''n'' then parse_literal ''null'' JNull (c # r)
          else if c = CHR ''t'' then parse_literal ''true'' (JBool True) (c # r)
          else if c = CHR ''f'' then parse_literal ''false'' (JBool False) (c # r)
          else if c = CHR 0x22 then
            (case parse_chars [] r of None \<Rightarrow> None | Some (str, r') \<Rightarrow> Some (JStr str, r'))
          else if c = CHR ''-'' then
            (case parse_digits r of None \<Rightarrow> None | Some (n, r') \<Rightarrow> Some (JNum (- int n), r'))
          else if digit_val c \<noteq> None then
            (case parse_digits (c # r) of None \<Rightarrow> None | Some (n, r') \<Rightarrow> Some (JNum (int n), r'))
          else if c = CHR ''['' then
            (case skip_ws r of
               [] \<Rightarrow> None
             | d # r' \<Rightarrow> if d = CHR '']'' then Some (JArr [], r') else parse_elements fuel [] (d # r'))
          else if c = CHR ''{'' then
            (case skip_ws r of
               [] \<Rightarrow> None
             | d # r' \<Rightarrow> if d = CHR ''}'' then Some (JObj [], r') else parse_members fuel [] (d # r'))
          else None)"
| "parse_elements 0 acc s = None"
| "parse_elements (Suc fuel) acc s =
     (case parse_value fuel s of
        None \<Rightarrow> None
      | Some (v, r) \<Rightarrow>
          (case skip_ws r of
             [] \<Rightarrow> None
           | d # r' \<Rightarrow>
               if d = CHR '','' then parse_elements fuel (acc @ [v]) r'
               else if d = CHR '']'' then Some (JArr (acc @ [v]), r')
               else None))"
| "parse_members 0 acc s = None"
| "parse_members (Suc fuel) acc s =
     (case skip_ws s of
        [] \<Rightarrow> None
      | q # r \<Rightarrow>
          if q \<noteq> CHR 0x22 then None
          else (case parse_chars [] r of
                  None \<Rightarrow> None
                | Some (k, r1) \<Rightarrow>
                    (case skip_ws r1 of
                       [] \<Rightarrow> None
                     | colon # r2 \<Rightarrow>
                         if colon \<noteq> CHR '':'' then None
                         else (case parse_value fuel r2 of
                                 None \<Rightarrow> None
                               | Some (v, r3) \<Rightarrow>
                                   (case skip_ws r3 of
                                      [] \<Rightarrow> None
                                    | d # r4 \<Rightarrow>
                                        if d = CHR '','' then parse_members fuel (AList.update k v acc) r4
                                        else if d = CHR ''}'' then Some (JObj (AList.update k v acc), r4)
                                        else None)))))"

definition JSON_parse :: "string \<Rightarrow> js_error + jsval" where
  "JSON_parse text =
     (case parse_value (2 * length text + 2) text of
        None \<Rightarrow> Inl SyntaxError
      | Some (v, rest) \<Rightarrow> if skip_ws rest = [] then Inr v else Inl SyntaxError)"

section \<open>Files\<close>

text \<open>
  The part of the file system the helpers touch: the directories that exist, the regular
  files with their text, and the paths on which the process is denied access. Paths are
  relative to the repository directory, which exists. A failing call throws an error with
  a system code, \<open>IOError code\<close>; the state it leaves behind is returned with it.
\<close>

record filesystem =
  dirs :: "string set"
  files :: "string \<rightharpoonup> string"
  denied :: "string set"

definition path_join :: "string \<Rightarrow> string \<Rightarrow> string" where
  "path_join dir name = dir @ ''/'' @ name"

definition dirname :: "string \<Rightarrow> string" where
  "dirname p = rev (drop 1 (dropWhile (\<lambda>c. c \<noteq> CHR ''/'') (rev p)))"

definition parent_exists :: "filesystem \<Rightarrow> string \<Rightarrow> bool" where
  "parent_exists fs p = (dirname p = [] \<or> dirname p \<in> dirs fs)"

definition existsSync :: "filesystem \<Rightarrow> string \<Rightarrow> bool" where
  "existsSync fs p = (p \<in> dirs fs \<or> files fs p \<noteq> None)"

text \<open>\<^verbatim>\<open>fs.mkdirSync(p, { recursive: true })\<close>: no error when the directory is there already.\<close>

definition mkdirSync_recursive :: "filesystem \<Rightarrow> string \<Rightarrow> (js_error + unit) \<times> filesystem" where
  "mkdirSync_recursive fs p =
     (if p \<in> dirs fs then (Inr (), fs)
      else if files fs p \<noteq> None then (Inl (IOError ''EEXIST''), fs)
      else if p \<in> denied fs then (Inl (IOError ''EACCES''), fs)
      else (Inr (), fs\<lparr>dirs := insert p (dirs fs)\<rparr>))"

text \<open>\<^verbatim>\<open>fs.mkdirSync(p)\<close>\<close>

definition mkdirSync :: "filesystem \<Rightarrow> string \<Rightarrow> (js_error + unit) \<times> filesystem" where
  "mkdirSync fs p =
     (if existsSync fs p then (Inl (IOError ''EEXIST''), fs)
      else if \<not> parent_exists fs p then (Inl (IOError ''ENOENT''), fs)
      else if p \<in> denied fs then (Inl (IOError ''EACCES''), fs)
      else (Inr (), fs\<lparr>dirs := insert p (dirs fs)\<rparr>))"

definition writeFileSync :: "filesystem \<Rightarrow> string \<Rightarrow> string \<Rightarrow> (js_error + unit) \<times> filesystem" where
  "writeFileSync fs p text =
     (if p \<in> dirs fs then (Inl (IOError ''EISDIR''), fs)
      else if \<not> parent_exists fs p then (Inl (IOError ''ENOENT''), fs)
      else if p \<in> denied fs then (Inl (IOError ''EACCES''), fs)
      else (Inr (), fs\<lparr>files := (files fs)(p \<mapsto> text)\<rparr>))"

definition readFileSync :: "filesystem \<Rightarrow> string \<Rightarrow> js_error + string" where
  "readFileSync fs p =
     (if p \<in> dirs fs then Inl (IOError ''EISDIR'')
      else (case files fs p of
              None \<Rightarrow> Inl (IOError ''ENOENT'')
            | Some text \<Rightarrow> if p \<in> denied fs then Inl (IOError ''EACCES'') else Inr text))"

definition fresh_checkout :: filesystem where
  "fresh_checkout = \<lparr>dirs = {}, files = Map.empty, denied = {}\<rparr>"

section \<open>Persisted outcome store (utils/outcomeHelper.js)\<close>

text \<open>
  \<^verbatim>\<open>
  const tempDir = path.resolve(__dirname, "../temp");
  const dataPath = path.join(tempDir, "testData.json");

  function writeTestData(data) {
    if (!fs.existsSync(tempDir)) {
      fs.mkdirSync(tempDir, { recursive: true });
    }
    fs.writeFileSync(dataPath, JSON.stringify(data, null, 2));
  }

  function readTestData() {
    if (!fs.existsSync(dataPath)) return {};
    const raw = fs.readFileSync(dataPath, "utf-8");
    return JSON.parse(raw);
  }
  \<close>
  \<^verbatim>\<open>fs.writeFileSync\<close> refuses \<^verbatim>\<open>undefined\<close> as the text with a TypeError.
\<close>

definition tempDir :: string where
  "tempDir = ''temp''"

definition dataPath :: string where
  "dataPath = path_join tempDir ''testData.json''"

definition writeTestData :: "filesystem \<Rightarrow> jsval \<Rightarrow> (js_error + unit) \<times> filesystem" where
  "writeTestData fs data =
     (case (if \<not> existsSync fs tempDir then mkdirSync_recursive fs tempDir else (Inr (), fs)) of
        (Inl e, fs') \<Rightarrow> (Inl e, fs')
      | (Inr u, fs') \<Rightarrow>
          (case JSON_stringify data of
             None \<Rightarrow> (Inl TypeError, fs')
           | Some text \<Rightarrow> writeFileSync fs' dataPath text))"

definition readTestData :: "filesystem \<Rightarrow> js_error + jsval" where
  "readTestData fs =
     (if \<not> existsSync fs dataPath then Inr (JObj [])
      else (case readFileSync fs dataPath of
              Inl e \<Rightarrow> Inl e
            | Inr raw \<Rightarrow> JSON_parse raw))"

text \<open>A run of writes, one after the other; the first one that throws ends the run.\<close>

fun write_all :: "filesystem \<Rightarrow> jsval list \<Rightarrow> (js_error + unit) \<times> filesystem" where
  "write_all fs [] = (Inr (), fs)"
| "write_all fs (d # ds) =
     (case writeTestData fs d of
        (Inl e, fs') \<Rightarrow> (Inl e, fs')
      | (Inr u, fs') \<Rightarrow> write_all fs' ds)"

section \<open>Login flow tests (tests/login.spec.js)\<close>

text \<open>
  \<^verbatim>\<open>
  test("Login with valid credentials", async ({ loginPage }) => {
    await loginPage.login(process.env.LOGIN_EMAIL, process.env.LOGIN_PASSWORD);
    await loginPage.assertLoginSuccess();
    writeTestData({ loginSuccess: true });
  });

  test("Logout after Login", async ({ loginPage }) => {
    const testData = readTestData();
    test.skip(!testData.loginSuccess, "Skipping logout because login was not successful");
    await loginPage.login(process.env.LOGIN_EMAIL, process.env.LOGIN_PASSWORD);
    await loginPage.assertLoginSuccess();
    await loginPage.logout();
  });
  \<close>
  Both tests ask for the fixture of fixtures/loginFixture.js, whose setup runs before the
  test body:
  \<^verbatim>\<open>
  loginPage: async ({ page }, use) => {
    const loginPage = new LoginPage(page);
    await loginPage.goto();
    await use(loginPage);
  }
  \<close>
  The page object drives the browser: what the fixture's setup and the calls of a test
  body do is a parameter of each test, \<open>None\<close> when they all resolve and \<open>Some error\<close>
  when one throws. A test passes, fails with the error thrown, or is skipped;
  \<^verbatim>\<open>test.skip(condition, ...)\<close> ends the test as skipped when the condition holds.
\<close>

datatype test_status = Passed | Failed js_error | Skipped

definition login_record :: jsval where
  "login_record = JObj [(''loginSuccess'', JBool True)]"

definition login_valid_test ::
  "js_error option \<Rightarrow> js_error option \<Rightarrow> filesystem \<Rightarrow> test_status \<times> filesystem" where
  "login_valid_test fixture_setup login_steps fs =
     (case fixture_setup of
        Some e \<Rightarrow> (Failed e, fs)
      | None \<Rightarrow>
          (case login_steps of
             Some e \<Rightarrow> (Failed e, fs)
           | None \<Rightarrow>
               (case writeTestData fs login_record of
                  (Inl e, fs') \<Rightarrow> (Failed e, fs')
                | (Inr u, fs') \<Rightarrow> (Passed, fs'))))"

definition logout_after_login_test ::
  "js_error option \<Rightarrow> js_error option \<Rightarrow> filesystem \<Rightarrow> test_status" where
  "logout_after_login_test fixture_setup logout_steps fs =
     (case fixture_setup of
        Some e \<Rightarrow> Failed e
      | None \<Rightarrow>
          (case readTestData fs of
             Inl e \<Rightarrow> Failed e
           | Inr testData \<Rightarrow>
               (case get_prop testData ''loginSuccess'' of
                  Inl e \<Rightarrow> Failed e
                | Inr loginSuccess \<Rightarrow>
                    if \<not> truthy loginSuccess then Skipped
                    else (case logout_steps of Some e \<Rightarrow> Failed e | None \<Rightarrow> Passed))))"

section \<open>Concrete states and records\<close>

text \<open>
  A checkout in which nothing may be created, the store after the login test and after a
  later write of another record, a file whose write was cut short, and a run of two writes.
\<close>

definition read_only_checkout :: filesystem where
  "read_only_checkout = fresh_checkout\<lparr>denied := {tempDir, dataPath}\<rparr>"

definition profile_record :: jsval where
  "profile_record = JObj [(''profileLoaded'', JBool True)]"

definition after_login :: filesystem where
  "after_login = snd (writeTestData fresh_checkout login_record)"

definition after_profile :: filesystem where
  "after_profile = snd (writeTestData after_login profile_record)"

definition cut_short :: string where
  \<open>cut_short = ''{"loginSuccess": tr''\<close>

definition crashed_store :: filesystem where
  "crashed_store = fresh_checkout\<lparr>dirs := {tempDir}, files := [dataPath \<mapsto> cut_short]\<rparr>"

definition signup_then_login :: "jsval list" where
  "signup_then_login = [JObj [(''signup'', JStr ''done'')], JObj [(''login'', JStr ''done'')]]"

definition after_signup_then_login :: filesystem where
  "after_signup_then_login = snd (write_all fresh_checkout signup_then_login)"

section \<open>Settings (utils/setConfig.js and the runner configurations)\<close>

text \<open>
  The object spread \<^verbatim>\<open>{ ...a, ...b }\<close> copies the own enumerable properties of \<^verbatim>\<open>a\<close>, then
  those of \<^verbatim>\<open>b\<close>, into a new object: a key that is there already keeps its position and
  takes the new value. \<^verbatim>\<open>null\<close>, \<^verbatim>\<open>undefined\<close>, booleans and numbers have no such
  properties; a string or an array has one per index.
\<close>

fun own_properties :: "jsval \<Rightarrow> (string \<times> jsval) list" where
  "own_properties (JObj kvs) = kvs"
| "own_properties (JArr xs) = zip (map show_nat [0..<length xs]) xs"
| "own_properties (JStr s) = zip (map show_nat [0..<length s]) (map (\<lambda>c. JStr [c]) s)"
| "own_properties v = []"

definition spread :: "(string \<times> jsval) list \<Rightarrow> jsval \<Rightarrow> (string \<times> jsval) list" where
  "spread acc v = fold (\<lambda>(k, x). AList.update k x) (own_properties v) acc"

text \<open>
  \<^verbatim>\<open>
  const settingsPath = path.resolve(__dirname, "../settings.json");

  const defaultSettings = {
    executionMode: "parallel",
    browserMode: "headless",
    environment: "staging"
  };

  function loadSettings() {
    if (fs.existsSync(settingsPath)) {
      try {
        const content = fs.readFileSync(settingsPath, "utf-8");
        return { ...defaultSettings, ...JSON.parse(content) };
      } catch (error) {
        console.error(chalk.red("Error loading settings:"), error);
        return defaultSettings;
      }
    }
    return defaultSettings;
  }
  \<close>
\<close>

definition settingsPath :: string where
  "settingsPath = ''settings.json''"

text \<open>
  \<^verbatim>\<open>defaultSettings\<close> is one object of the module, and \<open>loadSettings\<close> returns that
  very object, not a copy, whenever it falls back: a caller that assigns to the result, as
  \<^verbatim>\<open>setConfig\<close> does (\<^verbatim>\<open>settings.executionMode = 'sequential'\<close>), then changes what the
  module holds. So the result of \<open>loadSettings\<close> is either a reference to the module's
  object (\<open>TheDefaults\<close>) or a new object (\<open>Fresh\<close>), and the content of the module's
  object at the time of the call is a parameter; when the module is loaded it is the
  literal above, \<open>defaultSettings\<close>. The catch block calls \<^verbatim>\<open>chalk.red\<close> before it falls
  back; \<open>chalk_red\<close> is \<open>None\<close> when that call returns and \<open>Some e\<close> when it throws,
  which then leaves \<open>loadSettings\<close> in place of the fallback.
\<close>

definition defaultSettings :: jsval where
  "defaultSettings = JObj [(''executionMode'', JStr ''parallel''),
                            (''browserMode'', JStr ''headless''),
                            (''environment'', JStr ''staging'')]"

datatype settings_ref = TheDefaults | Fresh jsval

definition loadSettings :: "js_error option \<Rightarrow> jsval \<Rightarrow> filesystem \<Rightarrow> js_error + settings_ref" where
  "loadSettings chalk_red defaults fs =
     (if existsSync fs settingsPath then
        (case (case readFileSync fs settingsPath of
                 Inl error \<Rightarrow> Inl error
               | Inr content \<Rightarrow>
                   (case JSON_parse content of
                      Inl error \<Rightarrow> Inl error
                    | Inr parsed \<Rightarrow> Inr (JObj (spread (spread [] defaults) parsed)))) of
           Inr settings \<Rightarrow> Inr (Fresh settings)
         | Inl error \<Rightarrow>
             (case chalk_red of
                Some e \<Rightarrow> Inl e
              | None \<Rightarrow> Inr TheDefaults))
      else Inr TheDefaults)"

text \<open>
  What a reference stands for, and an assignment \<^verbatim>\<open>settings[key] = v\<close> through it: the
  content of the module's object afterwards, and the object the reference then stands for.
\<close>

definition settings_of :: "jsval \<Rightarrow> settings_ref \<Rightarrow> jsval" where
  "settings_of defaults ref = (case ref of TheDefaults \<Rightarrow> defaults | Fresh settings \<Rightarrow> settings)"

fun set_prop :: "jsval \<Rightarrow> string \<Rightarrow> jsval \<Rightarrow> jsval" where
  "set_prop (JObj kvs) k v = JObj (AList.update k v kvs)"
| "set_prop other k v = other"

definition assign_setting :: "jsval \<Rightarrow> settings_ref \<Rightarrow> string \<Rightarrow> jsval \<Rightarrow> jsval \<times> settings_ref" where
  "assign_setting defaults ref k v =
     (case ref of
        TheDefaults \<Rightarrow> (set_prop defaults k v, TheDefaults)
      | Fresh settings \<Rightarrow> (defaults, Fresh (set_prop settings k v)))"

text \<open>
  The runner configuration of src/unnamed/part_006, evaluated when the module is loaded:
  \<^verbatim>\<open>
  let settings = {
    executionMode: "parallel",
    browserMode: "headless",
    environment: "staging"
  };

  if (fs.existsSync(settingsPath)) {
    try {
      const content = fs.readFileSync(settingsPath, "utf-8");
      settings = { ...settings, ...JSON.parse(content) };
    } catch (error) {
      console.error("Failed to parse settings.json:", error);
    }
  }

  const isParallel = settings.executionMode === "parallel";
  const isHeadless = settings.browserMode === "headless";
  const environment = settings.environment || "staging";
  \<close>
\<close>

definition config_settings :: "filesystem \<Rightarrow> jsval" where
  "config_settings fs =
     (let settings = JObj [(''executionMode'', JStr ''parallel''),
                           (''browserMode'', JStr ''headless''),
                           (''environment'', JStr ''staging'')]
      in if existsSync fs settingsPath then
           (case readFileSync fs settingsPath of
              Inl error \<Rightarrow> settings
            | Inr content \<Rightarrow>
                (case JSON_parse content of
                   Inl error \<Rightarrow> settings
                 | Inr parsed \<Rightarrow> JObj (spread (spread [] settings) parsed)))
         else settings)"

record run_mode =
  isParallel :: bool
  isHeadless :: bool
  environment :: jsval

definition config_mode :: "filesystem \<Rightarrow> js_error + run_mode" where
  "config_mode fs =
     (let settings = config_settings fs in
      case get_prop settings ''executionMode'' of
        Inl e \<Rightarrow> Inl e
      | Inr executionMode \<Rightarrow>
          (case get_prop settings ''browserMode'' of
             Inl e \<Rightarrow> Inl e
           | Inr browserMode \<Rightarrow>
               (case get_prop settings ''environment'' of
                  Inl e \<Rightarrow> Inl e
                | Inr env \<Rightarrow>
                    Inr \<lparr>isParallel = (executionMode = JStr ''parallel''),
                         isHeadless = (browserMode = JStr ''headless''),
                         environment = (if truthy env then env else JStr ''staging'')\<rparr>)))"

text \<open>
  The runner configuration of src/unnamed/part_007, which has no environment setting:
  \<^verbatim>\<open>
  let settings = {
    executionMode: "parallel",
    browserMode: "headless",
  };

  if (fs.existsSync(settingsPath)) {
    try {
      const content = fs.readFileSync(settingsPath, "utf-8");
      settings = JSON.parse(content);
    } catch (error) {
      console.error(" Failed to parse settings.json:", error);
    }
  }

  const isParallel = settings.executionMode === "parallel";
  const isHeadless = settings.browserMode === "headless";
  \<close>
\<close>

definition plain_config_settings :: "filesystem \<Rightarrow> jsval" where
  "plain_config_settings fs =
     (let settings = JObj [(''executionMode'', JStr ''parallel''),
                           (''browserMode'', JStr ''headless'')]
      in if existsSync fs settingsPath then
           (case readFileSync fs settingsPath of
              Inl error \<Rightarrow> settings
            | Inr content \<Rightarrow>
                (case JSON_parse content of
                   Inl error \<Rightarrow> settings
                 | Inr parsed \<Rightarrow> parsed))
         else settings)"

definition plain_config_mode :: "filesystem \<Rightarrow> js_error + bool \<times> bool" where
  "plain_config_mode fs =
     (let settings = plain_config_settings fs in
      case get_prop settings ''executionMode'' of
        Inl e \<Rightarrow> Inl e
      | Inr executionMode \<Rightarrow>
          (case get_prop settings ''browserMode'' of
             Inl e \<Rightarrow> Inl e
           | Inr browserMode \<Rightarrow>
               Inr (executionMode = JStr ''parallel'', browserMode = JStr ''headless'')))"

text \<open>Settings files: one that sets the browser mode only, and one that is not JSON.\<close>

definition headed_only :: string where
  \<open>headed_only = ''{ "browserMode": "headed" }''\<close>

definition with_settings :: "string \<Rightarrow> filesystem" where
  "with_settings content = fresh_checkout\<lparr>files := [settingsPath \<mapsto> content]\<rparr>"

section \<open>Conversions and patterns\<close>

text \<open>
  \<^verbatim>\<open>String(v)\<close>, as a template literal and \<^verbatim>\<open>RegExp.prototype.test\<close> apply it: an array
  is its elements joined by commas, with \<^verbatim>\<open>null\<close> and \<^verbatim>\<open>undefined\<close> elements empty.
\<close>

fun to_string :: "jsval \<Rightarrow> string"
  and to_string_elements :: "jsval list \<Rightarrow> string list" where
  "to_string JUndefined = ''undefined''"
| "to_string JNull = ''null''"
| "to_string (JBool b) = (if b then ''true'' else ''false'')"
| "to_string (JNum n) = show_int n"
| "to_string (JStr s) = s"
| "to_string (JArr xs) = join '','' (to_string_elements xs)"
| "to_string (JObj kvs) = ''[object Object]''"
| "to_string_elements [] = []"
| "to_string_elements (x # xs) =
     (if x = JUndefined \<or> x = JNull then [] else to_string x) # to_string_elements xs"

text \<open>
  The white space of \<^verbatim>\<open>\s\<close> and of number parsing, among 8-bit code units: tab, line
  feed, vertical tab, form feed, carriage return, space and no-break space.
\<close>

definition js_space :: "char \<Rightarrow> bool" where
  "js_space c = ((of_char c :: nat) \<in> {9, 10, 11, 12, 13, 32, 160})"

text \<open>
  \<^verbatim>\<open>Number(v)\<close>, with \<open>None\<close> for \<^verbatim>\<open>NaN\<close>. A string converts when, trimmed, it is empty
  or an optionally signed run of decimal digits; any other string is \<^verbatim>\<open>NaN\<close> here.
\<close>

definition string_to_number :: "string \<Rightarrow> int option" where
  "string_to_number s =
     (let t = rev (dropWhile js_space (rev (dropWhile js_space s)));
          signed = (t \<noteq> [] \<and> (hd t = CHR ''-'' \<or> hd t = CHR ''+''));
          ds = (if signed then tl t else t)
      in if t = [] then Some 0
         else if ds \<noteq> [] \<and> list_all (\<lambda>c. digit_val c \<noteq> None) ds
           then Some (if hd t = CHR ''-'' then - int (digits_val ds) else int (digits_val ds))
         else None)"

fun to_number :: "jsval \<Rightarrow> int option" where
  "to_number JUndefined = None"
| "to_number JNull = Some 0"
| "to_number (JBool b) = Some (if b then 1 else 0)"
| "to_number (JNum n) = Some n"
| "to_number (JStr s) = string_to_number s"
| "to_number (JArr xs) = string_to_number (to_string (JArr xs))"
| "to_number (JObj kvs) = None"


definition number_at_least :: "int \<Rightarrow> jsval \<Rightarrow> bool" where
  "number_at_least n v = (case to_number v of None \<Rightarrow> False | Some m \<Rightarrow> n \<ge> m)"




section \<open>Bounded retry (BasePage.retryAction)\<close>

text \<open>
  \<^verbatim>\<open>
  async retryAction(action, maxRetries = 3, delay = 1000) {
    for (let i = 0; i < maxRetries; i++) {
      try {
        await action();
        return;
      } catch (error) {
        this.logger.warn(`Action failed, retry ${i + 1}/${maxRetries}: ${error.message}`);
        if (i === maxRetries - 1) throw error;
        await this.page.waitForTimeout(delay);
      }
    }
  }
  \<close>
  The action is a callback with effects: it is a function from the state of the world
  \<open>'w\<close> it acts on to that state afterwards, together with \<open>None\<close> when the awaited call
  resolves and \<open>Some error\<close> when it rejects with the value \<open>error\<close>, which may be any
  value: an error object has a \<^verbatim>\<open>message\<close> property, and \<^verbatim>\<open>null\<close> and \<^verbatim>\<open>undefined\<close> can be
  thrown too. The catch block reads \<^verbatim>\<open>error.message\<close> for the warning before it decides
  anything, and that read throws a TypeError out of the helper when the value is \<^verbatim>\<open>null\<close>
  or \<^verbatim>\<open>undefined\<close>. So the helper resolves (\<open>Inr ()\<close>), throws the value the action
  rejected with (\<open>Rethrown\<close>), or throws an error of its own (\<open>Raised\<close>).

  The record \<open>attempt_log\<close> is what the helper does around the action: how often it
  called it, the warnings it logged and how many times it slept. The logger and the page
  timer are collaborators that do not fail. \<^verbatim>\<open>BaseTest.retryAction\<close> is the same loop, and
  \<^verbatim>\<open>BaseTest.retryAssertion\<close> differs in the first word of the warning only.
\<close>

datatype thrown = Rethrown jsval | Raised js_error






text \<open>
  Actions over a call counter that reject on their first two calls: with an error object
  and then resolving, with error objects throughout, and with \<^verbatim>\<open>null\<close> and then resolving.
\<close>

definition timeout_error :: jsval where
  "timeout_error = JObj [(''message'', JStr ''timeout'')]"

definition detached_error :: jsval where
  "detached_error = JObj [(''message'', JStr ''detached'')]"


definition broken :: "nat \<Rightarrow> jsval option \<times> nat" where
  "broken n = (Some (if n < 2 then timeout_error else detached_error), Suc n)"


section \<open>Validation of user data (TestDataManager.validateUserData)\<close>

text \<open>
  \<^verbatim>\<open>
  validateUserData(user) {
    const requiredFields = ['email', 'password', 'firstName', 'lastName'];
    const missingFields = requiredFields.filter(field => !user[field]);

    if (missingFields.length > 0) {
      return {
        valid: false,
        errors: [`Missing required fields: ${missingFields.join(', ')}`]
      };
    }

    const errors = [];

    const emailRegex = /^[^\s@]+@[^\s@]+\.[^\s@]+$/;
    if (!emailRegex.test(user.email)) {
      errors.push('Invalid email format');
    }

    if (user.password.length < 8) {
      errors.push('Password must be at least 8 characters long');
    }

    return {
      valid: errors.length === 0,
      errors
    };
  }
  \<close>
\<close>

record validation =
  valid :: bool
  errors :: "string list"










section \<open>Test data (utils/testDataManager.js)\<close>

text \<open>
  The manager hands out objects that its callers may change, so objects live in a store:
  one cell for each object that \<^verbatim>\<open>JSON.parse\<close> or \<^verbatim>\<open>_.cloneDeep\<close> creates, holding the
  tree of that object, and a reference is the number of a cell. Two holders of the same
  reference see each other's changes. \<^verbatim>\<open>_.cloneDeep(v)\<close> copies the tree of \<^verbatim>\<open>v\<close> into a
  new cell. The cache maps a file name to the reference of the parsed data.
  \<^verbatim>\<open>
  constructor() {
    this.testDataPath = path.join(process.cwd(), 'testData');
    this.cache = new Map();
    this.generatedData = new Map();
  }

  loadTestData(fileName) {
    const cacheKey = fileName;
    if (this.cache.has(cacheKey)) {
      logger.info(`Loading test data from cache: ${fileName}`);
      return this.cache.get(cacheKey);
    }
    try {
      const filePath = path.join(this.testDataPath, `${fileName}.json`);
      if (!fs.existsSync(filePath)) {
        throw new Error(`Test data file not found: ${filePath}`);
      }
      const data = JSON.parse(fs.readFileSync(filePath, 'utf8'));
      this.cache.set(cacheKey, data);
      logger.info(`Loaded test data: ${fileName}`);
      return data;
    } catch (error) {
      logger.error(`Error loading test data ${fileName}:`, error);
      throw error;
    }
  }
  \<close>
\<close>

record manager =
  cache :: "string \<rightharpoonup> nat"
  objects :: "jsval list"

definition new_manager :: manager where
  "new_manager = \<lparr>cache = Map.empty, objects = []\<rparr>"

definition testDataPath :: string where
  "testDataPath = ''testData''"

definition allocate :: "manager \<Rightarrow> jsval \<Rightarrow> nat \<times> manager" where
  "allocate m v = (length (objects m), m\<lparr>objects := objects m @ [v]\<rparr>)"

definition deref :: "manager \<Rightarrow> nat \<Rightarrow> jsval" where
  "deref m ref = (if ref < length (objects m) then objects m ! ref else JUndefined)"

definition cloneDeep :: "manager \<Rightarrow> jsval \<Rightarrow> nat \<times> manager" where
  "cloneDeep m v = allocate m v"

definition loadTestData :: "filesystem \<Rightarrow> string \<Rightarrow> manager \<Rightarrow> (js_error + nat) \<times> manager" where
  "loadTestData fs fileName m =
     (case cache m fileName of
        Some ref \<Rightarrow> (Inr ref, m)
      | None \<Rightarrow>
          (let filePath = path_join testDataPath (fileName @ ''.json'') in
           if \<not> existsSync fs filePath
             then (Inl (Error (''Test data file not found: '' @ filePath)), m)
           else (case readFileSync fs filePath of
                   Inl e \<Rightarrow> (Inl e, m)
                 | Inr content \<Rightarrow>
                     (case JSON_parse content of
                        Inl e \<Rightarrow> (Inl e, m)
                      | Inr data \<Rightarrow>
                          (case allocate m data of
                             (ref, m') \<Rightarrow> (Inr ref, m'\<lparr>cache := (cache m')(fileName \<mapsto> ref)\<rparr>))))))"

text \<open>
  \<^verbatim>\<open>
  getUser(type = 'valid', index = 0) {
    const users = this.loadTestData('users');
    const userType = type === 'valid' ? 'validUsers' :
                    type === 'invalid' ? 'invalidUsers' :
                    type === 'test' ? 'testUsers' :
                    type === 'bulk' ? 'bulkUsers' : 'validUsers';

    if (!users[userType] || users[userType].length === 0) {
      throw new Error(`No ${type} users found in test data`);
    }

    if (index >= users[userType].length) {
      throw new Error(`User index ${index} out of range for ${type} users`);
    }

    return _.cloneDeep(users[userType][index]);
  }
  \<close>
  \<open>getProduct\<close> is the same over the file \<^verbatim>\<open>products\<close>, with the types \<^verbatim>\<open>valid\<close>,
  \<^verbatim>\<open>outOfStock\<close>, \<^verbatim>\<open>discounted\<close> and \<^verbatim>\<open>bulk\<close>.
\<close>

definition getUser :: "filesystem \<Rightarrow> string \<Rightarrow> int \<Rightarrow> manager \<Rightarrow> (js_error + nat) \<times> manager" where
  "getUser fs type index m =
     (case loadTestData fs ''users'' m of
        (Inl e, m1) \<Rightarrow> (Inl e, m1)
      | (Inr users, m1) \<Rightarrow>
          (let userType = (if type = ''valid'' then ''validUsers''
                           else if type = ''invalid'' then ''invalidUsers''
                           else if type = ''test'' then ''testUsers''
                           else if type = ''bulk'' then ''bulkUsers'' else ''validUsers'')
           in case get_prop (deref m1 users) userType of
                Inl e \<Rightarrow> (Inl e, m1)
              | Inr list \<Rightarrow>
                  if \<not> truthy list
                    then (Inl (Error (''No '' @ type @ '' users found in test data'')), m1)
                  else (case get_prop list ''length'' of
                          Inl e \<Rightarrow> (Inl e, m1)
                        | Inr len \<Rightarrow>
                            if len = JNum 0
                              then (Inl (Error (''No '' @ type @ '' users found in test data'')), m1)
                            else if number_at_least index len
                              then (Inl (Error (''User index '' @ show_int index
                                      @ '' out of range for '' @ type @ '' users'')), m1)
                            else (case get_prop list (show_int index) of
                                    Inl e \<Rightarrow> (Inl e, m1)
                                  | Inr user \<Rightarrow>
                                      (case cloneDeep m1 user of
                                         (ref, m2) \<Rightarrow> (Inr ref, m2))))))"

definition getProduct :: "filesystem \<Rightarrow> string \<Rightarrow> int \<Rightarrow> manager \<Rightarrow> (js_error + nat) \<times> manager" where
  "getProduct fs type index m =
     (case loadTestData fs ''products'' m of
        (Inl e, m1) \<Rightarrow> (Inl e, m1)
      | (Inr products, m1) \<Rightarrow>
          (let productType = (if type = ''valid'' then ''validProducts''
                              else if type = ''outOfStock'' then ''outOfStockProducts''
                              else if type = ''discounted'' then ''discountedProducts''
                              else if type = ''bulk'' then ''bulkProducts'' else ''validProducts'')
           in case get_prop (deref m1 products) productType of
                Inl e \<Rightarrow> (Inl e, m1)
              | Inr list \<Rightarrow>
                  if \<not> truthy list
                    then (Inl (Error (''No '' @ type @ '' products found in test data'')), m1)
                  else (case get_prop list ''length'' of
                          Inl e \<Rightarrow> (Inl e, m1)
                        | Inr len \<Rightarrow>
                            if len = JNum 0
                              then (Inl (Error (''No '' @ type @ '' products found in test data'')), m1)
                            else if number_at_least index len
                              then (Inl (Error (''Product index '' @ show_int index
                                      @ '' out of range for '' @ type @ '' products'')), m1)
                            else (case get_prop list (show_int index) of
                                    Inl e \<Rightarrow> (Inl e, m1)
                                  | Inr product \<Rightarrow>
                                      (case cloneDeep m1 product of
                                         (ref, m2) \<Rightarrow> (Inr ref, m2))))))"

text \<open>
  A caller that changes an object it holds overwrites the cell of that reference. Every
  reference in the cache of a manager points into its store.
\<close>

definition mutate :: "manager \<Rightarrow> nat \<Rightarrow> jsval \<Rightarrow> manager" where
  "mutate m ref v = m\<lparr>objects := (objects m)[ref := v]\<rparr>"

definition cache_allocated :: "manager \<Rightarrow> bool" where
  "cache_allocated m = (\<forall>k ref. cache m k = Some ref \<longrightarrow> ref < length (objects m))"

text \<open>The data files of a test run, and a user object after its holder has rewritten it.\<close>

definition users_json :: string where
  \<open>users_json = ''{"validUsers": [{"email": "qa@example.com", "password": "s3cretPassw0"}]}''\<close>

definition products_json :: string where
  \<open>products_json = ''{"validProducts": [{"name": "Mug", "price": 12}], "bulkProducts": []}''\<close>

definition with_test_data :: filesystem where
  "with_test_data = fresh_checkout\<lparr>dirs := {testDataPath},
     files := [path_join testDataPath ''users.json'' \<mapsto> users_json,
               path_join testDataPath ''products.json'' \<mapsto> products_json]\<rparr>"

definition defaced :: jsval where
  "defaced = JObj [(''email'', JStr ''changed@example.com''), (''password'', JNull)]"

definition after_getUser :: manager where
  "after_getUser = snd (getUser with_test_data ''valid'' 0 new_manager)"

definition after_getProduct :: manager where
  "after_getProduct = snd (getProduct with_test_data ''valid'' 0 after_getUser)"

section \<open>Session bootstrap (global-setup.js)\<close>

text \<open>
  \<^verbatim>\<open>
  module.exports = async () => {
    const browser = await chromium.launch();
    const context = await browser.newContext();
    const page = await context.newPage();

    await page.goto(process.env.BASE_URL);
    await page.click('a[href="/login"]');
    await page.fill('input[name="email"]', process.env.LOGIN_EMAIL);
    await page.fill('input[name="password"]', process.env.LOGIN_PASSWORD);
    await page.click('button[type="submit"]');

    const storageDir = path.resolve(__dirname, "storageState");
    if (!fs.existsSync(storageDir)) fs.mkdirSync(storageDir);

    await context.storageState({
      path: path.join(storageDir, "storageState.json"),
    });

    await browser.close();
  };
  \<close>
  The browser and the application under test are collaborators. Of the application the
  bootstrap needs: whether the base URL can be loaded, whether the login link and the
  login form are on the page, which account it accepts, and which cookies it sets for any
  visitor and for a session that has logged in. A navigation that fails and an argument
  that is not a string throw an Error; a selector that matches nothing throws a
  TimeoutError. A click on the submit button resolves whether or not the application
  accepts the credentials. \<^verbatim>\<open>context.storageState\<close> writes the cookies and origins of
  the context to the path as JSON text; the cookies are taken as they are once the
  application has answered the submission. Launching and closing the browser do not fail.
\<close>

record web_app =
  reachable :: bool
  login_link :: bool
  login_form :: bool
  account :: "string \<times> string"
  visitor_cookies :: "jsval list"
  session_cookies :: "jsval list"

definition page_goto :: "web_app \<Rightarrow> string option \<Rightarrow> js_error option" where
  "page_goto app url =
     (case url of
        None \<Rightarrow> Some (Error ''url: expected string, got undefined'')
      | Some u \<Rightarrow> if reachable app then None else Some (Error ''net::ERR_CONNECTION_REFUSED''))"

definition page_click :: "bool \<Rightarrow> js_error option" where
  "page_click present = (if present then None else Some TimeoutError)"

definition page_fill :: "bool \<Rightarrow> string option \<Rightarrow> js_error option" where
  "page_fill present v =
     (case v of
        None \<Rightarrow> Some (Error ''value: expected string, got undefined'')
      | Some s \<Rightarrow> if present then None else Some TimeoutError)"

definition context_cookies :: "web_app \<Rightarrow> string \<Rightarrow> string \<Rightarrow> jsval list" where
  "context_cookies app email password =
     visitor_cookies app @ (if (email, password) = account app then session_cookies app else [])"

definition storage_state :: "jsval list \<Rightarrow> jsval" where
  "storage_state cookies = JObj [(''cookies'', JArr cookies), (''origins'', JArr [])]"

definition storageDir :: string where
  "storageDir = ''storageState''"

definition snapshotPath :: string where
  "snapshotPath = path_join storageDir ''storageState.json''"

definition global_setup ::
  "web_app \<Rightarrow> (string \<rightharpoonup> string) \<Rightarrow> filesystem \<Rightarrow> (js_error + unit) \<times> filesystem" where
  "global_setup app env fs =
     (case page_goto app (env ''BASE_URL'') of
        Some e \<Rightarrow> (Inl e, fs)
      | None \<Rightarrow>
     (case page_click (login_link app) of
        Some e \<Rightarrow> (Inl e, fs)
      | None \<Rightarrow>
     (case page_fill (login_form app) (env ''LOGIN_EMAIL'') of
        Some e \<Rightarrow> (Inl e, fs)
      | None \<Rightarrow>
     (case page_fill (login_form app) (env ''LOGIN_PASSWORD'') of
        Some e \<Rightarrow> (Inl e, fs)
      | None \<Rightarrow>
     (case page_click (login_form app) of
        Some e \<Rightarrow> (Inl e, fs)
      | None \<Rightarrow>
     (case (if \<not> existsSync fs storageDir then mkdirSync fs storageDir else (Inr (), fs)) of
        (Inl e, fs') \<Rightarrow> (Inl e, fs')
      | (Inr u, fs') \<Rightarrow>
          (case (env ''LOGIN_EMAIL'', env ''LOGIN_PASSWORD'') of
             (Some email, Some password) \<Rightarrow>
               (case JSON_stringify (storage_state (context_cookies app email password)) of
                  None \<Rightarrow> (Inl TypeError, fs')
                | Some snapshot \<Rightarrow> writeFileSync fs' snapshotPath snapshot)
           | _ \<Rightarrow> (Inl TypeError, fs'))))))))"

text \<open>A shop with one account, and environments with the right and with a wrong password.\<close>

definition shop :: web_app where
  "shop = \<lparr>reachable = True, login_link = True, login_form = True,
           account = (''qa@example.com'', ''s3cretPassw0''),
           visitor_cookies = [],
           session_cookies = [JObj [(''name'', JStr ''sessionid''), (''value'', JStr ''f00d'')]]\<rparr>"

definition shop_without_login :: web_app where
  "shop_without_login = shop\<lparr>login_form := False\<rparr>"

definition valid_env :: "string \<rightharpoonup> string" where
  "valid_env = [''BASE_URL'' \<mapsto> ''https://shop.example'', ''LOGIN_EMAIL'' \<mapsto> ''qa@example.com'',
                ''LOGIN_PASSWORD'' \<mapsto> ''s3cretPassw0'']"

definition invalid_env :: "string \<rightharpoonup> string" where
  "invalid_env = [''BASE_URL'' \<mapsto> ''https://shop.example'', ''LOGIN_EMAIL'' \<mapsto> ''qa@example.com'',
                  ''LOGIN_PASSWORD'' \<mapsto> ''wrong'']"

section \<open>Fixture composer\<close>

text \<open>
  Modelled from the spec: the resolution of fixture dependencies. The repository declares
  its fixtures (\<^verbatim>\<open>base.extend({ apiHelper: async ({ baseURL }, use) => ..., ... })\<close> in
  fixtures/customFixtures.js and fixtures/loginFixture.js); the code that orders and
  instantiates them belongs to the test runner and is not in the repository. The spec
  (4.3 and 9) asks for a registry of fixtures with their declared dependency names, and
  for a \<open>resolve\<close> that, for the fixture names a test declares, computes a setup order
  by a topological sort in which each fixture is instantiated once, and that fails with a
  \<open>CycleError\<close> on a dependency cycle.

  \<open>resolve\<close> walks the dependencies depth first. \<open>visiting\<close> is the chain of fixtures
  whose dependencies are being resolved, the innermost first; \<open>ready\<close> is the setup order
  so far. A fixture met again on its own chain is a cycle; a name that is not registered
  is an error of its own, since the spec gives it no other.
\<close>

type_synonym registry = "(string \<times> string list) list"

datatype resolve_error = CycleError "string list" | UnknownFixture string

function visit :: "registry \<Rightarrow> string list \<Rightarrow> string list \<Rightarrow> string \<Rightarrow> resolve_error + string list"
  and visit_all :: "registry \<Rightarrow> string list \<Rightarrow> string list \<Rightarrow> string list \<Rightarrow> resolve_error + string list"
  where
  "visit reg visiting ready name =
     (if name \<in> set ready then Inr ready
      else if name \<in> set visiting then Inl (CycleError (name # visiting))
      else (case map_of reg name of
              None \<Rightarrow> Inl (UnknownFixture name)
            | Some deps \<Rightarrow>
                (case visit_all reg (name # visiting) ready deps of
                   Inl e \<Rightarrow> Inl e
                 | Inr ready' \<Rightarrow> Inr (ready' @ [name]))))"
| "visit_all reg visiting ready [] = Inr ready"
| "visit_all reg visiting ready (name # names) =
     (case visit reg visiting ready name of
        Inl e \<Rightarrow> Inl e
      | Inr ready' \<Rightarrow> visit_all reg visiting ready' names)"
  by pat_completeness auto
termination
proof (relation "inv_image (less_than <*lex*> less_than)
    (\<lambda>call :: (registry \<times> string list \<times> string list \<times> string)
                + (registry \<times> string list \<times> string list \<times> string list).
     case call of
       Inl (reg, visiting, ready, name) \<Rightarrow> (card (fst ` set reg - set visiting), 0)
     | Inr (reg, visiting, ready, names) \<Rightarrow> (card (fst ` set reg - set visiting), Suc (length names)))",
    goal_cases)
  case 1
  show ?case by (intro wf_inv_image wf_lex_prod wf_less_than)
next
  case (2 reg visiting ready name deps)
  from \<open>map_of reg name = Some deps\<close> have "name \<in> fst ` set reg"
    by (metis domI dom_map_of_conv_image_fst)
  with \<open>name \<notin> set visiting\<close>
  have "fst ` set reg - set (name # visiting) \<subset> fst ` set reg - set visiting"
    by auto
  then have "card (fst ` set reg - set (name # visiting)) < card (fst ` set reg - set visiting)"
    by (simp add: psubset_card_mono)
  then show ?case by simp
next
  case 3
  show ?case by simp
next
  case 4
  show ?case by simp
qed

definition resolve :: "registry \<Rightarrow> string list \<Rightarrow> resolve_error + string list" where
  "resolve reg testDecl = visit_all reg [] [] testDecl"

text \<open>
  A setup order is topological when no fixture occurs twice and each one comes after all
  the fixtures it depends on. A chain of fixtures, the innermost first, follows the
  dependencies when each fixture is a dependency of the next.
\<close>

fun setup_order_from :: "registry \<Rightarrow> string list \<Rightarrow> string list \<Rightarrow> bool" where
  "setup_order_from reg earlier [] = True"
| "setup_order_from reg earlier (name # later) =
     (name \<notin> set earlier
      \<and> (case map_of reg name of None \<Rightarrow> False | Some deps \<Rightarrow> set deps \<subseteq> set earlier)
      \<and> setup_order_from reg (earlier @ [name]) later)"

definition topological :: "registry \<Rightarrow> string list \<Rightarrow> bool" where
  "topological reg order = setup_order_from reg [] order"

fun depends_along :: "registry \<Rightarrow> string list \<Rightarrow> bool" where
  "depends_along reg (dep # name # chain) =
     ((case map_of reg name of None \<Rightarrow> False | Some deps \<Rightarrow> dep \<in> set deps)
      \<and> depends_along reg (name # chain))"
| "depends_along reg chain = True"

text \<open>
  The fixtures the repository declares, with the parameters of their setup functions as
  dependencies, over the runner's own \<^verbatim>\<open>page\<close>, \<^verbatim>\<open>context\<close>, \<^verbatim>\<open>browser\<close> and \<^verbatim>\<open>baseURL\<close>;
  and a registry in which two fixtures depend on each other.
\<close>

definition customFixtures :: registry where
  "customFixtures =
     [(''browser'', []), (''baseURL'', []), (''context'', [''browser'']), (''page'', [''context'']),
      (''apiHelper'', [''baseURL'']), (''browserHelper'', [''page'', ''context'']),
      (''testData'', []), (''authenticatedUser'', [''page'', ''apiHelper'']),
      (''adminUser'', [''page'', ''apiHelper'']), (''database'', []),
      (''performanceMonitor'', [''page'']), (''screenshot'', [''page'']),
      (''networkMocker'', [''page'']), (''errorTracker'', [''page'']),
      (''fileOperations'', [''page'']), (''mobileDevice'', [''browser'']),
      (''loginPage'', [''page''])]"

definition knotted :: registry where
  "knotted = [(''session'', [''account'']), (''account'', [''token'']), (''token'', [''session''])]"

section \<open>Properties\<close>

declare show_nat.simps [simp del]




subsection \<open>Outcome store\<close>

lemma login_record_round_trip:
  "JSON_stringify login_record = Some text \<Longrightarrow> JSON_parse text = Inr login_record"
proof -
  have "JSON_parse (the (JSON_stringify login_record)) = Inr login_record"
    by code_simp
  then show "JSON_stringify login_record = Some text \<Longrightarrow> JSON_parse text = Inr login_record"
    by simp
qed

lemma stringify_object_defined: "JSON_stringify (JObj kvs) \<noteq> None"
  by (simp add: JSON_stringify_def split: list.splits)

lemma dirname_dataPath: "dirname dataPath = tempDir"
  by (simp add: dirname_def dataPath_def tempDir_def path_join_def)

lemma dataPath_not_tempDir: "dataPath \<noteq> tempDir"
  by (simp add: dataPath_def tempDir_def path_join_def)

lemma tempDir_not_root: "tempDir \<noteq> []"
  by (simp add: tempDir_def)

lemma writeTestData_success:
  assumes "writeTestData fs data = (Inr (), fs')"
  shows "\<exists>text. JSON_stringify data = Some text \<and> files fs' = (files fs)(dataPath \<mapsto> text)
          \<and> dirs fs' = insert tempDir (dirs fs)
          \<and> denied fs' = denied fs \<and> dataPath \<notin> dirs fs' \<and> dataPath \<notin> denied fs'"
  using assms
  by (auto simp: writeTestData_def mkdirSync_recursive_def writeFileSync_def dataPath_not_tempDir
      parent_exists_def dirname_dataPath tempDir_not_root
      split: if_splits option.splits sum.splits prod.splits)

lemma read_after_write:
  assumes "writeTestData fs data = (Inr (), fs')" "JSON_stringify data = Some text"
  shows "readTestData fs' = JSON_parse text"
  using writeTestData_success [OF assms(1)] assms(2)
  by (auto simp: readTestData_def existsSync_def readFileSync_def)

lemma write_all_snoc:
  "write_all fs (ds @ [d]) = (Inr (), fs') \<Longrightarrow>
     \<exists>fs1. write_all fs ds = (Inr (), fs1) \<and> writeTestData fs1 d = (Inr (), fs')"
  by (induction ds arbitrary: fs) (auto split: prod.splits sum.splits)

text \<open>
  C1 (as amended). \<open>writeTestData\<close> does not merge: after a write of a record that
  succeeds, the backing file holds the text of that record alone, whatever it held before,
  and the backing directory exists. When the directory is absent and the location is
  writable, the write succeeds and creates it. When the directory cannot be created, or
  exists and the file is not writable, the write throws an IOError (\<^verbatim>\<open>EACCES\<close>).
\<close>

theorem writeTestData_replaces_file:
  "(writeTestData fs (JObj kvs) = (Inr (), fs') \<longrightarrow>
      files fs' dataPath = JSON_stringify (JObj kvs) \<and> tempDir \<in> dirs fs')
   \<and> (\<not> existsSync fs tempDir \<and> dataPath \<notin> dirs fs \<and> tempDir \<notin> denied fs \<and> dataPath \<notin> denied fs \<longrightarrow>
        fst (writeTestData fs (JObj kvs)) = Inr ()
        \<and> dirs (snd (writeTestData fs (JObj kvs))) = insert tempDir (dirs fs))
   \<and> ((\<not> existsSync fs tempDir \<and> tempDir \<in> denied fs)
        \<or> (tempDir \<in> dirs fs \<and> dataPath \<notin> dirs fs \<and> dataPath \<in> denied fs) \<longrightarrow>
        fst (writeTestData fs (JObj kvs)) = Inl (IOError ''EACCES''))"
proof (intro conjI impI)
  assume ok: "writeTestData fs (JObj kvs) = (Inr (), fs')"
  from writeTestData_success [OF ok]
  show "files fs' dataPath = JSON_stringify (JObj kvs)" and "tempDir \<in> dirs fs'"
    by auto
next
  assume absent: "\<not> existsSync fs tempDir \<and> dataPath \<notin> dirs fs \<and> tempDir \<notin> denied fs \<and> dataPath \<notin> denied fs"
  obtain out where out: "JSON_stringify (JObj kvs) = Some out"
    using stringify_object_defined [of kvs] by auto
  from absent out
  show "fst (writeTestData fs (JObj kvs)) = Inr ()"
    and "dirs (snd (writeTestData fs (JObj kvs))) = insert tempDir (dirs fs)"
    by (auto simp: writeTestData_def mkdirSync_recursive_def writeFileSync_def existsSync_def
        parent_exists_def dirname_dataPath dataPath_not_tempDir tempDir_not_root)
next
  assume ro: "(\<not> existsSync fs tempDir \<and> tempDir \<in> denied fs)
        \<or> (tempDir \<in> dirs fs \<and> dataPath \<notin> dirs fs \<and> dataPath \<in> denied fs)"
  obtain out where out: "JSON_stringify (JObj kvs) = Some out"
    using stringify_object_defined [of kvs] by auto
  from ro out
  show "fst (writeTestData fs (JObj kvs)) = Inl (IOError ''EACCES'')"
    by (auto simp: writeTestData_def mkdirSync_recursive_def writeFileSync_def existsSync_def
        parent_exists_def dirname_dataPath tempDir_not_root)
qed


theorem writeTestData_replaces_file_witness:
  "writeTestData fresh_checkout login_record = (Inr (), after_login)
   \<and> files after_login dataPath = JSON_stringify login_record \<and> tempDir \<in> dirs after_login
   \<and> \<not> existsSync fresh_checkout tempDir \<and> dataPath \<notin> dirs fresh_checkout
   \<and> tempDir \<notin> denied fresh_checkout \<and> dataPath \<notin> denied fresh_checkout
   \<and> fst (writeTestData fresh_checkout login_record) = Inr ()
   \<and> dirs (snd (writeTestData fresh_checkout login_record)) = insert tempDir (dirs fresh_checkout)
   \<and> \<not> existsSync read_only_checkout tempDir \<and> tempDir \<in> denied read_only_checkout
   \<and> fst (writeTestData read_only_checkout login_record) = Inl (IOError ''EACCES'')"
proof -
  have "fst (writeTestData fresh_checkout login_record) = Inr ()"
    by code_simp
  then have first: "writeTestData fresh_checkout login_record = (Inr (), after_login)"
    by (simp add: after_login_def prod_eq_iff)
  have absent: "\<not> existsSync fresh_checkout tempDir \<and> dataPath \<notin> dirs fresh_checkout
      \<and> tempDir \<notin> denied fresh_checkout \<and> dataPath \<notin> denied fresh_checkout"
    by (simp add: existsSync_def fresh_checkout_def)
  have ro: "\<not> existsSync read_only_checkout tempDir \<and> tempDir \<in> denied read_only_checkout"
    by (simp add: existsSync_def fresh_checkout_def read_only_checkout_def)
  show ?thesis
    using first absent ro
      writeTestData_replaces_file [of fresh_checkout "[(''loginSuccess'', JBool True)]" after_login]
      writeTestData_replaces_file [of read_only_checkout "[(''loginSuccess'', JBool True)]" after_login]
    unfolding login_record_def by blast
qed

text \<open>
  The claim as stated fails: the login test writes \<^verbatim>\<open>{loginSuccess: true}\<close> into a fresh
  checkout, a later write of \<^verbatim>\<open>{profileLoaded: true}\<close> succeeds, and the store then reads
  back as the second record only: \<^verbatim>\<open>loginSuccess\<close> is \<^verbatim>\<open>undefined\<close>.
\<close>

theorem writeTestData_merge_counterexample:
  "fst (writeTestData fresh_checkout login_record) = Inr ()
   \<and> get_prop login_record ''loginSuccess'' = Inr (JBool True)
   \<and> fst (writeTestData after_login profile_record) = Inr ()
   \<and> readTestData after_profile = Inr profile_record
   \<and> get_prop profile_record ''loginSuccess'' = Inr JUndefined"
  unfolding after_profile_def after_login_def by code_simp


text \<open>
  C2 (as amended). \<open>readTestData\<close> returns the empty object when the backing file is
  missing. When the file is there and readable, the result is that of \<^verbatim>\<open>JSON.parse\<close> on
  its text: the value it denotes, or the SyntaxError thrown for a text that is not JSON,
  which \<open>readTestData\<close> does not catch.
\<close>

theorem readTestData_missing_or_unparseable:
  "(\<not> existsSync fs dataPath \<longrightarrow> readTestData fs = Inr (JObj []))
   \<and> (files fs dataPath = Some raw \<and> dataPath \<notin> dirs fs \<and> dataPath \<notin> denied fs \<longrightarrow>
        readTestData fs = JSON_parse raw)"
  by (auto simp: readTestData_def existsSync_def readFileSync_def)

theorem readTestData_missing_or_unparseable_witness:
  "\<not> existsSync fresh_checkout dataPath \<and> readTestData fresh_checkout = Inr (JObj [])
   \<and> files after_profile dataPath = JSON_stringify profile_record
   \<and> dataPath \<notin> dirs after_profile \<and> dataPath \<notin> denied after_profile
   \<and> readTestData after_profile = JSON_parse (the (JSON_stringify profile_record))"
proof -
  have missing: "\<not> existsSync fresh_checkout dataPath"
    by (simp add: existsSync_def fresh_checkout_def)
  have "fst (writeTestData after_login profile_record) = Inr ()"
    unfolding after_login_def by code_simp
  then have "writeTestData after_login profile_record = (Inr (), after_profile)"
    by (simp add: after_profile_def prod_eq_iff)
  from writeTestData_success [OF this]
  have there: "files after_profile dataPath = JSON_stringify profile_record
      \<and> dataPath \<notin> dirs after_profile \<and> dataPath \<notin> denied after_profile"
    by auto
  obtain out where out: "JSON_stringify profile_record = Some out"
    using stringify_object_defined [of "[(''profileLoaded'', JBool True)]"]
    by (auto simp: profile_record_def)
  show ?thesis
    using missing there out
      readTestData_missing_or_unparseable [of fresh_checkout out]
      readTestData_missing_or_unparseable [of after_profile out]
    by simp
qed

text \<open>
  The claim as stated fails: on a file left behind by a write that was cut short,
  \<open>readTestData\<close> throws.
\<close>

theorem readTestData_corrupted_counterexample:
  "existsSync crashed_store dataPath \<and> JSON_parse cut_short = Inl SyntaxError
   \<and> readTestData crashed_store = Inl SyntaxError"
  by code_simp

text \<open>
  C3 (as amended). After a run of writes that all succeed, \<open>readTestData\<close> returns the
  record of the last write, and nothing else, provided that record survives the trip
  through JSON text: a key of an earlier write is bound only if the last record binds it.
\<close>

theorem read_returns_last_record:
  assumes "write_all fs (ds @ [d]) = (Inr (), fs')"
    and "JSON_stringify d = Some out" and "JSON_parse out = Inr d"
  shows "readTestData fs' = Inr d"
proof -
  from write_all_snoc [OF assms(1)]
  obtain fs1 where "writeTestData fs1 d = (Inr (), fs')"
    by blast
  from read_after_write [OF this assms(2)] assms(3)
  show ?thesis by simp
qed

theorem read_returns_last_record_witness:
  "write_all fresh_checkout ([JObj [(''signup'', JStr ''done'')]] @ [JObj [(''login'', JStr ''done'')]])
     = (Inr (), after_signup_then_login)
   \<and> JSON_parse (the (JSON_stringify (JObj [(''login'', JStr ''done'')])))
       = Inr (JObj [(''login'', JStr ''done'')])
   \<and> readTestData after_signup_then_login = Inr (JObj [(''login'', JStr ''done'')])"
proof -
  have "fst (write_all fresh_checkout signup_then_login) = Inr ()"
    by code_simp
  then have run: "write_all fresh_checkout
      ([JObj [(''signup'', JStr ''done'')]] @ [JObj [(''login'', JStr ''done'')]])
      = (Inr (), after_signup_then_login)"
    by (simp add: after_signup_then_login_def signup_then_login_def prod_eq_iff)
  obtain out where out: "JSON_stringify (JObj [(''login'', JStr ''done'')]) = Some out"
    using stringify_object_defined by auto
  have "JSON_parse (the (JSON_stringify (JObj [(''login'', JStr ''done'')])))
       = Inr (JObj [(''login'', JStr ''done'')])"
    by code_simp
  with out have parsed: "JSON_parse out = Inr (JObj [(''login'', JStr ''done'')])"
    by simp
  show ?thesis
    using run out parsed read_returns_last_record [OF run out parsed] by simp
qed

text \<open>
  The claim as stated fails: after \<^verbatim>\<open>write({signup: "done"})\<close> and
  \<^verbatim>\<open>write({login: "done"})\<close>, the key \<^verbatim>\<open>signup\<close> reads as \<^verbatim>\<open>undefined\<close>.
\<close>

theorem earlier_key_lost_counterexample:
  "fst (write_all fresh_checkout signup_then_login) = Inr ()
   \<and> signup_then_login = [JObj [(''signup'', JStr ''done'')], JObj [(''login'', JStr ''done'')]]
   \<and> readTestData after_signup_then_login = Inr (JObj [(''login'', JStr ''done'')])
   \<and> get_prop (JObj [(''login'', JStr ''done'')]) ''signup'' = Inr JUndefined"
  unfolding after_signup_then_login_def by code_simp

text \<open>
  C4. With no outcome file, \<open>readTestData\<close> gives the empty object, its \<^verbatim>\<open>loginSuccess\<close>
  is \<^verbatim>\<open>undefined\<close>, and the logout test, once its fixture is set up, is skipped whatever
  its body would do. Once the login test has passed from that state, the store reads back
  as \<^verbatim>\<open>{loginSuccess: true}\<close>, \<^verbatim>\<open>loginSuccess\<close> is \<^verbatim>\<open>true\<close>, and the logout test runs its
  body.
\<close>

theorem login_outcome_gates_logout:
  assumes "\<not> existsSync fs dataPath"
  shows "readTestData fs = Inr (JObj [])
     \<and> get_prop (JObj []) ''loginSuccess'' = Inr JUndefined
     \<and> logout_after_login_test None logout_steps fs = Skipped
     \<and> (login_valid_test None None fs = (Passed, fs') \<longrightarrow>
          readTestData fs' = Inr login_record
          \<and> get_prop login_record ''loginSuccess'' = Inr (JBool True)
          \<and> logout_after_login_test None logout_steps fs'
              = (case logout_steps of Some e \<Rightarrow> Failed e | None \<Rightarrow> Passed))"
proof -
  have empty: "readTestData fs = Inr (JObj [])"
    using assms by (simp add: readTestData_def)
  have flag: "get_prop login_record ''loginSuccess'' = Inr (JBool True)"
    by (simp add: login_record_def)
  have after: "readTestData fs' = Inr login_record" if "login_valid_test None None fs = (Passed, fs')"
  proof -
    from that have w: "writeTestData fs login_record = (Inr (), fs')"
      by (auto simp: login_valid_test_def split: prod.splits sum.splits)
    from writeTestData_success [OF w] obtain out where out: "JSON_stringify login_record = Some out"
      by blast
    from read_after_write [OF w out] login_record_round_trip [OF out] show ?thesis
      by simp
  qed
  show ?thesis
    using empty flag after by (auto simp: logout_after_login_test_def)
qed

theorem login_outcome_gates_logout_witness:
  "\<not> existsSync fresh_checkout dataPath
   \<and> logout_after_login_test None None fresh_checkout = Skipped
   \<and> login_valid_test None None fresh_checkout = (Passed, after_login)
   \<and> readTestData after_login = Inr login_record
   \<and> logout_after_login_test None None after_login = Passed"
proof -
  have missing: "\<not> existsSync fresh_checkout dataPath"
    by (simp add: existsSync_def fresh_checkout_def)
  have "fst (writeTestData fresh_checkout login_record) = Inr ()"
    by code_simp
  then have "writeTestData fresh_checkout login_record = (Inr (), after_login)"
    by (simp add: after_login_def prod_eq_iff)
  then have pass: "login_valid_test None None fresh_checkout = (Passed, after_login)"
    by (simp add: login_valid_test_def)
  show ?thesis
    using missing pass login_outcome_gates_logout [OF missing, of None after_login]
    by simp
qed

subsection \<open>Settings\<close>

lemma map_of_fold_update:
  "distinct (map fst l) \<Longrightarrow>
     map_of (fold (\<lambda>(k, x). AList.update k x) l acc) = map_of acc ++ map_of l"
proof (induction l arbitrary: acc)
  case Nil
  then show ?case by simp
next
  case (Cons kv l)
  obtain k v where kv: "kv = (k, v)" by (cases kv)
  from Cons.prems kv have fresh: "k \<notin> dom (map_of l)" and rest: "distinct (map fst l)"
    by (auto simp: dom_map_of_conv_image_fst)
  have "map_of (fold (\<lambda>(k, x). AList.update k x) (kv # l) acc)
        = map_of (AList.update k v acc) ++ map_of l"
    using Cons.IH [OF rest] kv by simp
  also have "\<dots> = (map_of acc)(k \<mapsto> v) ++ map_of l"
    by (simp add: update_conv')
  also have "\<dots> = map_of acc ++ map_of (kv # l)"
    using fresh kv by (auto simp: map_add_def fun_eq_iff split: option.splits)
  finally show ?case .
qed

lemma spread_object:
  "distinct (map fst kvs) \<Longrightarrow> map_of (spread acc (JObj kvs)) = map_of acc ++ map_of kvs"
  by (simp add: spread_def map_of_fold_update)

lemma spread_defaults:
  "spread [] defaultSettings = [(''executionMode'', JStr ''parallel''),
      (''browserMode'', JStr ''headless''), (''environment'', JStr ''staging'')]"
  by (simp add: spread_def defaultSettings_def)

lemma readFileSync_exists: "readFileSync fs p = Inr content \<Longrightarrow> existsSync fs p"
  by (auto simp: readFileSync_def existsSync_def split: if_splits option.splits)

text \<open>
  The two loaders that spread the file over the defaults do what C7 says. In
  \<open>loadSettings\<close>, with the module's object as it is when the module is loaded, and in
  \<open>config_settings\<close>: the settings are the defaults when the settings file is absent, or
  is not JSON (and \<^verbatim>\<open>chalk.red\<close> returns); when the file holds an object, every key of the
  file has the file's value and every other key has its default.
\<close>

lemma spreading_loaders_fall_back_per_key:
  "(\<not> existsSync fs settingsPath \<longrightarrow>
      loadSettings chalk_red defaultSettings fs = Inr TheDefaults
      \<and> config_settings fs = defaultSettings)
   \<and> (readFileSync fs settingsPath = Inr content \<and> JSON_parse content = Inl e \<longrightarrow>
      loadSettings None defaultSettings fs = Inr TheDefaults
      \<and> config_settings fs = defaultSettings)
   \<and> (readFileSync fs settingsPath = Inr content \<and> JSON_parse content = Inr (JObj kvs)
        \<and> distinct (map fst kvs) \<longrightarrow>
      loadSettings chalk_red defaultSettings fs = Inr (Fresh (config_settings fs))
      \<and> get_prop (config_settings fs) k =
          Inr (case map_of kvs k of
                 Some v \<Rightarrow> v
               | None \<Rightarrow>
                   if k = ''executionMode'' then JStr ''parallel''
                   else if k = ''browserMode'' then JStr ''headless''
                   else if k = ''environment'' then JStr ''staging''
                   else JUndefined))"
proof (intro conjI impI)
  assume "\<not> existsSync fs settingsPath"
  then show "loadSettings chalk_red defaultSettings fs = Inr TheDefaults"
    and "config_settings fs = defaultSettings"
    by (simp_all add: loadSettings_def config_settings_def defaultSettings_def)
next
  assume bad: "readFileSync fs settingsPath = Inr content \<and> JSON_parse content = Inl e"
  then show "loadSettings None defaultSettings fs = Inr TheDefaults"
    and "config_settings fs = defaultSettings"
    by (simp_all add: loadSettings_def config_settings_def defaultSettings_def
        readFileSync_exists)
next
  assume good: "readFileSync fs settingsPath = Inr content \<and> JSON_parse content = Inr (JObj kvs)
        \<and> distinct (map fst kvs)"
  then have cfg: "config_settings fs = JObj (spread (spread [] defaultSettings) (JObj kvs))"
    by (simp add: config_settings_def defaultSettings_def readFileSync_exists)
  with good show "loadSettings chalk_red defaultSettings fs = Inr (Fresh (config_settings fs))"
    by (simp add: loadSettings_def readFileSync_exists)
  have "map_of (spread (spread [] defaultSettings) (JObj kvs))
      = map_of (spread [] defaultSettings) ++ map_of kvs"
    using good by (simp add: spread_object)
  with cfg show "get_prop (config_settings fs) k =
          Inr (case map_of kvs k of
                 Some v \<Rightarrow> v
               | None \<Rightarrow>
                   if k = ''executionMode'' then JStr ''parallel''
                   else if k = ''browserMode'' then JStr ''headless''
                   else if k = ''environment'' then JStr ''staging''
                   else JUndefined)"
    by (simp add: spread_defaults map_add_def split: option.splits)
qed

text \<open>
  \<open>loadSettings\<close> hands out the module's own object when it falls back: after a caller
  has assigned to that result, the next fallback yields the changed settings, not the
  defaults the module was loaded with. And when \<^verbatim>\<open>chalk.red\<close> throws, a settings file that
  is not JSON makes \<open>loadSettings\<close> throw.
\<close>

lemma loadSettings_shares_defaults:
  "loadSettings None defaultSettings fresh_checkout = Inr TheDefaults
   \<and> get_prop (settings_of
         (fst (assign_setting defaultSettings TheDefaults ''executionMode'' (JStr ''sequential'')))
         TheDefaults) ''executionMode''
       = Inr (JStr ''sequential'')
   \<and> loadSettings (Some TypeError) defaultSettings (with_settings ''not json'') = Inl TypeError"
  by code_simp

text \<open>
  C7. The claim holds where the file is spread over the defaults
  (\<open>spreading_loaders_fall_back_per_key\<close>), and the runner configuration of
  src/unnamed/part_007 breaks it: it declares the defaults of \<^verbatim>\<open>executionMode\<close> and
  \<^verbatim>\<open>browserMode\<close>, falls back to them when the settings file is absent or is not JSON, but
  replaces them wholesale by the parsed file. With a settings file that sets
  \<^verbatim>\<open>browserMode\<close> only, its \<^verbatim>\<open>executionMode\<close> is \<^verbatim>\<open>undefined\<close> and the run is not
  parallel, where the configuration of src/unnamed/part_006 on the same file keeps
  \<^verbatim>\<open>"parallel"\<close>.
\<close>

theorem plain_config_drops_defaults:
  "JSON_parse headed_only = Inr (JObj [(''browserMode'', JStr ''headed'')])
   \<and> get_prop (plain_config_settings (with_settings headed_only)) ''executionMode'' = Inr JUndefined
   \<and> plain_config_mode (with_settings headed_only) = Inr (False, False)
   \<and> get_prop (config_settings (with_settings headed_only)) ''executionMode''
       = Inr (JStr ''parallel'')
   \<and> config_mode (with_settings headed_only)
       = Inr \<lparr>isParallel = True, isHeadless = False, environment = JStr ''staging''\<rparr>
   \<and> plain_config_mode fresh_checkout = Inr (True, True)
   \<and> plain_config_mode (with_settings ''not json'') = Inr (True, True)"
  by code_simp

subsection \<open>Validation of user data\<close>







subsection \<open>Test data\<close>

lemma loadTestData_cached:
  "cache m name = Some ref \<Longrightarrow> loadTestData fs name m = (Inr ref, m)"
  by (simp add: loadTestData_def)

lemma loadTestData_result:
  assumes "cache_allocated m" and "loadTestData fs name m = (Inr ref, m')"
  shows "cache m' name = Some ref \<and> ref < length (objects m') \<and> cache_allocated m'"
  using assms
  by (auto simp: loadTestData_def cache_allocated_def allocate_def Let_def less_Suc_eq
      split: option.splits if_splits sum.splits)

lemma getUser_result:
  assumes "getUser fs type index m = (Inr ref, m2)"
  shows "\<exists>users m1 v. loadTestData fs ''users'' m = (Inr users, m1)
           \<and> ref = length (objects m1) \<and> m2 = m1\<lparr>objects := objects m1 @ [v]\<rparr>
           \<and> (\<forall>m'. cache m' ''users'' = Some users \<longrightarrow> deref m' users = deref m1 users \<longrightarrow>
                 getUser fs type index m'
                   = (Inr (length (objects m')), m'\<lparr>objects := objects m' @ [v]\<rparr>))"
  using assms
  by (auto simp: getUser_def cloneDeep_def allocate_def Let_def loadTestData_cached
      split: prod.splits sum.splits if_splits)

lemma getProduct_result:
  assumes "getProduct fs type index m = (Inr ref, m2)"
  shows "\<exists>products m1 v. loadTestData fs ''products'' m = (Inr products, m1)
           \<and> ref = length (objects m1) \<and> m2 = m1\<lparr>objects := objects m1 @ [v]\<rparr>
           \<and> (\<forall>m'. cache m' ''products'' = Some products \<longrightarrow>
                 deref m' products = deref m1 products \<longrightarrow>
                 getProduct fs type index m'
                   = (Inr (length (objects m')), m'\<lparr>objects := objects m' @ [v]\<rparr>))"
  using assms
  by (auto simp: getProduct_def cloneDeep_def allocate_def Let_def loadTestData_cached
      split: prod.splits sum.splits if_splits)

lemma deref_mutate_other:
  "c \<noteq> ref \<Longrightarrow> deref (mutate m ref v) c = deref m c"
  by (simp add: deref_def mutate_def)

lemma deref_appended:
  "c < length (objects m) \<Longrightarrow> deref (m\<lparr>objects := objects m @ [v]\<rparr>) c = deref m c"
  by (simp add: deref_def nth_append)

lemma deref_new:
  "deref (m\<lparr>objects := objects m @ [v]\<rparr>) (length (objects m)) = v"
  by (simp add: deref_def)


lemma getUser_copy:
  assumes wf: "cache_allocated m" and got: "getUser fs type index m = (Inr ref, m1)"
  shows "(\<exists>ref' m3. getUser fs type index (mutate m1 ref v) = (Inr ref', m3)
            \<and> deref m3 ref' = deref m1 ref)
         \<and> (\<forall>k c. cache m1 k = Some c \<longrightarrow> deref (mutate m1 ref v) c = deref m1 c)"
proof -
  from getUser_result [OF got] obtain users m0 v0 where
    loaded: "loadTestData fs ''users'' m = (Inr users, m0)"
    and ref: "ref = length (objects m0)"
    and m1: "m1 = m0\<lparr>objects := objects m0 @ [v0]\<rparr>"
    and again: "\<And>m'. cache m' ''users'' = Some users \<Longrightarrow> deref m' users = deref m0 users \<Longrightarrow>
        getUser fs type index m' = (Inr (length (objects m')), m'\<lparr>objects := objects m' @ [v0]\<rparr>)"
    by blast
  from loadTestData_result [OF wf loaded]
  have cached: "cache m0 ''users'' = Some users" and below: "users < length (objects m0)"
    and wf0: "cache_allocated m0"
    by simp_all
  let ?m2 = "mutate m1 ref v"
  have kept: "deref ?m2 c = deref m1 c" if "cache m1 k = Some c" for k c
  proof -
    from that wf0 m1 have "c < length (objects m0)"
      by (simp add: cache_allocated_def)
    with ref show ?thesis
      by (simp add: deref_mutate_other)
  qed
  have "cache ?m2 ''users'' = Some users"
    using cached m1 by (simp add: mutate_def)
  moreover have "deref ?m2 users = deref m0 users"
    using kept [of "''users''" users] cached below m1 by (simp add: deref_appended)
  ultimately have "getUser fs type index ?m2
      = (Inr (length (objects ?m2)), ?m2\<lparr>objects := objects ?m2 @ [v0]\<rparr>)"
    by (rule again)
  moreover have "deref (?m2\<lparr>objects := objects ?m2 @ [v0]\<rparr>) (length (objects ?m2)) = v0"
    by (rule deref_new)
  moreover have "deref m1 ref = v0"
    using ref m1 by (simp add: deref_def)
  ultimately show ?thesis
    using kept by auto
qed

lemma getProduct_copy:
  assumes wf: "cache_allocated m" and got: "getProduct fs type index m = (Inr ref, m1)"
  shows "(\<exists>ref' m3. getProduct fs type index (mutate m1 ref v) = (Inr ref', m3)
            \<and> deref m3 ref' = deref m1 ref)
         \<and> (\<forall>k c. cache m1 k = Some c \<longrightarrow> deref (mutate m1 ref v) c = deref m1 c)"
proof -
  from getProduct_result [OF got] obtain products m0 v0 where
    loaded: "loadTestData fs ''products'' m = (Inr products, m0)"
    and ref: "ref = length (objects m0)"
    and m1: "m1 = m0\<lparr>objects := objects m0 @ [v0]\<rparr>"
    and again: "\<And>m'. cache m' ''products'' = Some products \<Longrightarrow>
        deref m' products = deref m0 products \<Longrightarrow>
        getProduct fs type index m'
          = (Inr (length (objects m')), m'\<lparr>objects := objects m' @ [v0]\<rparr>)"
    by blast
  from loadTestData_result [OF wf loaded]
  have cached: "cache m0 ''products'' = Some products" and below: "products < length (objects m0)"
    and wf0: "cache_allocated m0"
    by simp_all
  let ?m2 = "mutate m1 ref v"
  have kept: "deref ?m2 c = deref m1 c" if "cache m1 k = Some c" for k c
  proof -
    from that wf0 m1 have "c < length (objects m0)"
      by (simp add: cache_allocated_def)
    with ref show ?thesis
      by (simp add: deref_mutate_other)
  qed
  have "cache ?m2 ''products'' = Some products"
    using cached m1 by (simp add: mutate_def)
  moreover have "deref ?m2 products = deref m0 products"
    using kept [of "''products''" products] cached below m1 by (simp add: deref_appended)
  ultimately have "getProduct fs type index ?m2
      = (Inr (length (objects ?m2)), ?m2\<lparr>objects := objects ?m2 @ [v0]\<rparr>)"
    by (rule again)
  moreover have "deref (?m2\<lparr>objects := objects ?m2 @ [v0]\<rparr>) (length (objects ?m2)) = v0"
    by (rule deref_new)
  moreover have "deref m1 ref = v0"
    using ref m1 by (simp add: deref_def)
  ultimately show ?thesis
    using kept by auto
qed

lemma getUser_keeps_cache_allocated:
  assumes "cache_allocated m" and "getUser fs type index m = (r, m1)"
  shows "cache_allocated m1"
proof (cases "loadTestData fs ''users'' m")
  case (Pair res m0)
  have wf0: "cache_allocated m0"
  proof (cases res)
    case (Inl e)
    with Pair assms(1) show ?thesis
      by (auto simp: loadTestData_def allocate_def Let_def
          split: option.splits if_splits sum.splits)
  next
    case (Inr u)
    with Pair loadTestData_result [OF assms(1)] show ?thesis by simp
  qed
  have "m1 = m0 \<or> (\<exists>x. m1 = m0\<lparr>objects := objects m0 @ [x]\<rparr>)"
    using assms(2) Pair
    by (auto simp: getUser_def cloneDeep_def allocate_def Let_def
        split: prod.splits sum.splits if_splits)
  with wf0 show ?thesis
    by (auto simp: cache_allocated_def less_Suc_eq)
qed

text \<open>
  C9. \<open>getUser\<close> and \<open>getProduct\<close> return copies. On a manager whose cache points into
  its store (a new manager, or one reached from it by these calls), when a call returns an
  object, then however the caller rewrites that object, the same call made again returns
  an object whose value is the one the first call returned, and every cached object is
  as it was. Rewriting the returned object many times is rewriting its cell once with the
  last value.
\<close>

theorem getters_return_copies:
  assumes "cache_allocated m"
  shows "(getUser fs type index m = (Inr ref, m1) \<longrightarrow>
            (\<exists>ref' m3. getUser fs type index (mutate m1 ref v) = (Inr ref', m3)
               \<and> deref m3 ref' = deref m1 ref)
            \<and> (\<forall>k c. cache m1 k = Some c \<longrightarrow> deref (mutate m1 ref v) c = deref m1 c))
       \<and> (getProduct fs type index m = (Inr ref, m1) \<longrightarrow>
            (\<exists>ref' m3. getProduct fs type index (mutate m1 ref v) = (Inr ref', m3)
               \<and> deref m3 ref' = deref m1 ref)
            \<and> (\<forall>k c. cache m1 k = Some c \<longrightarrow> deref (mutate m1 ref v) c = deref m1 c))"
  using getUser_copy [OF assms] getProduct_copy [OF assms] by blast

theorem getters_return_copies_witness:
  "cache_allocated new_manager
   \<and> getUser with_test_data ''valid'' 0 new_manager = (Inr 1, after_getUser)
   \<and> deref after_getUser 1
       = JObj [(''email'', JStr ''qa@example.com''), (''password'', JStr ''s3cretPassw0'')]
   \<and> (\<exists>ref' m3. getUser with_test_data ''valid'' 0 (mutate after_getUser 1 defaced) = (Inr ref', m3)
         \<and> deref m3 ref' = deref after_getUser 1)
   \<and> cache_allocated after_getUser
   \<and> getProduct with_test_data ''valid'' 0 after_getUser = (Inr 3, after_getProduct)
   \<and> deref after_getProduct 3 = JObj [(''name'', JStr ''Mug''), (''price'', JNum 12)]
   \<and> (\<exists>ref' m3. getProduct with_test_data ''valid'' 0 (mutate after_getProduct 3 defaced) = (Inr ref', m3)
         \<and> deref m3 ref' = deref after_getProduct 3)"
proof -
  have wf: "cache_allocated new_manager"
    by (simp add: cache_allocated_def new_manager_def)
  have "fst (getUser with_test_data ''valid'' 0 new_manager) = Inr 1"
    by code_simp
  then have user: "getUser with_test_data ''valid'' 0 new_manager = (Inr 1, after_getUser)"
    by (simp add: after_getUser_def prod_eq_iff)
  have copy: "deref after_getUser 1
       = JObj [(''email'', JStr ''qa@example.com''), (''password'', JStr ''s3cretPassw0'')]"
    unfolding after_getUser_def by code_simp
  have wf1: "cache_allocated after_getUser"
    using getUser_keeps_cache_allocated [OF wf user] .
  have "fst (getProduct with_test_data ''valid'' 0 after_getUser) = Inr 3"
    unfolding after_getUser_def by code_simp
  then have product: "getProduct with_test_data ''valid'' 0 after_getUser = (Inr 3, after_getProduct)"
    by (simp add: after_getProduct_def prod_eq_iff)
  have copy': "deref after_getProduct 3 = JObj [(''name'', JStr ''Mug''), (''price'', JNum 12)]"
    unfolding after_getProduct_def after_getUser_def by code_simp
  show ?thesis
    using wf user copy wf1 product copy'
      getters_return_copies [OF wf, of with_test_data "''valid''" 0 1 after_getUser defaced]
      getters_return_copies [OF wf1, of with_test_data "''valid''" 0 3 after_getProduct defaced]
    by blast
qed

text \<open>
  By contrast, \<open>loadTestData\<close> hands out the cached object itself: a caller that changes
  what \<open>loadTestData\<close> returned changes what \<open>getUser\<close> finds afterwards.
\<close>

lemma loadTestData_shares_cache:
  "fst (loadTestData with_test_data ''users'' new_manager) = Inr 0
   \<and> fst (getUser with_test_data ''valid'' 0
            (mutate (snd (loadTestData with_test_data ''users'' new_manager)) 0 defaced))
       = Inl (Error ''No valid users found in test data'')"
  by code_simp

subsection \<open>Session bootstrap\<close>

text \<open>
  C5 (as amended). The bootstrap fails, and writes nothing, when a browser step throws:
  the site cannot be loaded, or the login link or the login form is not on the page. It
  does not look at the outcome of the login: when every step resolves and the snapshot
  location is writable, it succeeds and writes a snapshot holding the cookies of the
  context, which are those of any visitor and, only if the application accepts the
  credentials, those of the session.
\<close>

theorem global_setup_checks_steps_only:
  "(\<not> reachable app \<or> \<not> login_link app \<or> \<not> login_form app \<longrightarrow>
      (\<exists>e. fst (global_setup app env fs) = Inl e) \<and> snd (global_setup app env fs) = fs)
   \<and> (reachable app \<and> login_link app \<and> login_form app
       \<and> env ''BASE_URL'' = Some url \<and> env ''LOGIN_EMAIL'' = Some email
       \<and> env ''LOGIN_PASSWORD'' = Some password
       \<and> (storageDir \<in> dirs fs \<or> (\<not> existsSync fs storageDir \<and> storageDir \<notin> denied fs))
       \<and> snapshotPath \<notin> dirs fs \<and> snapshotPath \<notin> denied fs \<longrightarrow>
      fst (global_setup app env fs) = Inr ()
      \<and> files (snd (global_setup app env fs)) snapshotPath
          = JSON_stringify (storage_state
              (visitor_cookies app
               @ (if (email, password) = account app then session_cookies app else []))))"
proof (intro conjI impI)
  assume "\<not> reachable app \<or> \<not> login_link app \<or> \<not> login_form app"
  then show "\<exists>e. fst (global_setup app env fs) = Inl e" and "snd (global_setup app env fs) = fs"
    by (auto simp: global_setup_def page_goto_def page_click_def page_fill_def
        split: option.splits)
next
  assume ok: "reachable app \<and> login_link app \<and> login_form app
       \<and> env ''BASE_URL'' = Some url \<and> env ''LOGIN_EMAIL'' = Some email
       \<and> env ''LOGIN_PASSWORD'' = Some password
       \<and> (storageDir \<in> dirs fs \<or> (\<not> existsSync fs storageDir \<and> storageDir \<notin> denied fs))
       \<and> snapshotPath \<notin> dirs fs \<and> snapshotPath \<notin> denied fs"
  obtain out where out:
    "JSON_stringify (storage_state (context_cookies app email password)) = Some out"
    using stringify_object_defined by (auto simp: storage_state_def)
  from ok out
  show "fst (global_setup app env fs) = Inr ()"
    and "files (snd (global_setup app env fs)) snapshotPath
          = JSON_stringify (storage_state
              (visitor_cookies app
               @ (if (email, password) = account app then session_cookies app else [])))"
    by (auto simp: global_setup_def page_goto_def page_click_def page_fill_def
        existsSync_def mkdirSync_def writeFileSync_def parent_exists_def context_cookies_def
        dirname_def snapshotPath_def storageDir_def path_join_def)
qed


theorem global_setup_checks_steps_only_witness:
  "\<not> login_form shop_without_login
   \<and> fst (global_setup shop_without_login valid_env fresh_checkout) = Inl TimeoutError
   \<and> snd (global_setup shop_without_login valid_env fresh_checkout) = fresh_checkout
   \<and> reachable shop \<and> login_link shop \<and> login_form shop
   \<and> valid_env ''BASE_URL'' = Some ''https://shop.example''
   \<and> valid_env ''LOGIN_EMAIL'' = Some ''qa@example.com''
   \<and> valid_env ''LOGIN_PASSWORD'' = Some ''s3cretPassw0''
   \<and> \<not> existsSync fresh_checkout storageDir \<and> storageDir \<notin> denied fresh_checkout
   \<and> snapshotPath \<notin> dirs fresh_checkout \<and> snapshotPath \<notin> denied fresh_checkout
   \<and> fst (global_setup shop valid_env fresh_checkout) = Inr ()
   \<and> files (snd (global_setup shop valid_env fresh_checkout)) snapshotPath
       = JSON_stringify (storage_state
           [JObj [(''name'', JStr ''sessionid''), (''value'', JStr ''f00d'')]])"
proof -
  have broken: "\<not> login_form shop_without_login"
    by (simp add: shop_without_login_def)
  have up: "reachable shop \<and> login_link shop \<and> login_form shop"
    by (simp add: shop_def)
  have env: "valid_env ''BASE_URL'' = Some ''https://shop.example''"
    "valid_env ''LOGIN_EMAIL'' = Some ''qa@example.com''"
    "valid_env ''LOGIN_PASSWORD'' = Some ''s3cretPassw0''"
    by (simp_all add: valid_env_def)
  have place: "\<not> existsSync fresh_checkout storageDir \<and> storageDir \<notin> denied fresh_checkout
      \<and> snapshotPath \<notin> dirs fresh_checkout \<and> snapshotPath \<notin> denied fresh_checkout"
    by (simp add: existsSync_def fresh_checkout_def)
  have shop_account: "account shop = (''qa@example.com'', ''s3cretPassw0'')"
    "visitor_cookies shop = []"
    "session_cookies shop = [JObj [(''name'', JStr ''sessionid''), (''value'', JStr ''f00d'')]]"
    by (simp_all add: shop_def)
  have thrown: "fst (global_setup shop_without_login valid_env fresh_checkout) = Inl TimeoutError"
    by code_simp
  show ?thesis
    using broken up env place shop_account thrown
      global_setup_checks_steps_only [where app = shop_without_login and env = valid_env
        and fs = fresh_checkout]
      global_setup_checks_steps_only [where app = shop and env = valid_env
        and fs = fresh_checkout and url = "''https://shop.example''"
        and email = "''qa@example.com''" and password = "''s3cretPassw0''"]
    by simp
qed

text \<open>
  The claim as stated fails: with a password the shop rejects, the bootstrap succeeds and
  writes a snapshot, one without any cookie.
\<close>

theorem global_setup_invalid_credentials_counterexample:
  "invalid_env ''LOGIN_PASSWORD'' = Some ''wrong''
   \<and> account shop = (''qa@example.com'', ''s3cretPassw0'')
   \<and> fst (global_setup shop invalid_env fresh_checkout) = Inr ()
   \<and> files (snd (global_setup shop invalid_env fresh_checkout)) snapshotPath
       = JSON_stringify (storage_state [])"
  by code_simp

subsection \<open>Fixture composer\<close>

lemma setup_order_from_snoc:
  "setup_order_from reg earlier (xs @ [n]) \<longleftrightarrow>
     setup_order_from reg earlier xs \<and> n \<notin> set earlier \<union> set xs
     \<and> (case map_of reg n of None \<Rightarrow> False | Some deps \<Rightarrow> set deps \<subseteq> set earlier \<union> set xs)"
  by (induction xs arbitrary: earlier) (auto split: option.splits)

lemma setup_order_from_distinct:
  "setup_order_from reg earlier xs \<Longrightarrow> distinct xs \<and> set xs \<inter> set earlier = {}"
proof (induction xs arbitrary: earlier)
  case Nil
  then show ?case by simp
next
  case (Cons x xs)
  then have "x \<notin> set earlier" and "setup_order_from reg (earlier @ [x]) xs"
    by simp_all
  with Cons.IH [of "earlier @ [x]"] show ?case
    by auto
qed

lemma visit_extends_order:
  "topological reg ready \<Longrightarrow> set ready \<inter> set visiting = {} \<Longrightarrow>
     visit reg visiting ready name = Inr ready' \<Longrightarrow>
     topological reg ready' \<and> set ready' \<inter> set visiting = {}
     \<and> set ready \<subseteq> set ready' \<and> name \<in> set ready'"
  and visit_all_extends_order:
  "topological reg ready \<Longrightarrow> set ready \<inter> set visiting = {} \<Longrightarrow>
     visit_all reg visiting ready names = Inr ready' \<Longrightarrow>
     topological reg ready' \<and> set ready' \<inter> set visiting = {}
     \<and> set ready \<subseteq> set ready' \<and> set names \<subseteq> set ready'"
proof (induction reg visiting ready name and reg visiting ready names
    arbitrary: ready' and ready' rule: visit_visit_all.induct)
  case (1 reg visiting ready name)
  show ?case
  proof (cases "name \<in> set ready")
    case True
    with "1.prems" show ?thesis by simp
  next
    case False
    with "1.prems"(3) have fresh: "name \<notin> set visiting"
      by (auto split: if_splits)
    from False fresh "1.prems"(3) obtain deps inner where
      deps: "map_of reg name = Some deps"
      and inner: "visit_all reg (name # visiting) ready deps = Inr inner"
      and result: "ready' = inner @ [name]"
      by (auto split: option.splits sum.splits)
    have "set ready \<inter> set (name # visiting) = {}"
      using False "1.prems"(2) by auto
    from "1.IH" [OF False fresh deps "1.prems"(1) this inner]
    have "topological reg inner" and "set inner \<inter> set (name # visiting) = {}"
      and "set ready \<subseteq> set inner" and "set deps \<subseteq> set inner"
      by simp_all
    with deps fresh result show ?thesis
      by (auto simp: topological_def setup_order_from_snoc)
  qed
next
  case (2 reg visiting ready)
  then show ?case by simp
next
  case (3 reg visiting ready name names)
  from "3.prems"(3) obtain mid where
    first: "visit reg visiting ready name = Inr mid"
    and rest: "visit_all reg visiting mid names = Inr ready'"
    by (auto split: sum.splits)
  from "3.IH"(1) [OF "3.prems"(1,2) first]
  have mid: "topological reg mid" "set mid \<inter> set visiting = {}"
    "set ready \<subseteq> set mid" "name \<in> set mid"
    by simp_all
  from "3.IH"(2) [OF first mid(1,2) rest] mid(3,4)
  show ?case by auto
qed

lemma visit_cycle_is_real:
  "depends_along reg (name # visiting) \<Longrightarrow>
     visit reg visiting ready name = Inl (CycleError cycle) \<Longrightarrow>
     depends_along reg cycle \<and> cycle \<noteq> [] \<and> hd cycle \<in> set (tl cycle)"
  and visit_all_cycle_is_real:
  "\<forall>n \<in> set names. depends_along reg (n # visiting) \<Longrightarrow>
     visit_all reg visiting ready names = Inl (CycleError cycle) \<Longrightarrow>
     depends_along reg cycle \<and> cycle \<noteq> [] \<and> hd cycle \<in> set (tl cycle)"
proof (induction reg visiting ready name and reg visiting ready names
    rule: visit_visit_all.induct)
  case (1 reg visiting ready name)
  show ?case
  proof (cases "name \<in> set visiting")
    case True
    with "1.prems" show ?thesis
      by (auto split: if_splits)
  next
    case False
    with "1.prems"(2) have unready: "name \<notin> set ready"
      by (auto split: if_splits)
    from False unready "1.prems"(2) obtain deps where
      deps: "map_of reg name = Some deps"
      and inner: "visit_all reg (name # visiting) ready deps = Inl (CycleError cycle)"
      by (auto split: option.splits sum.splits)
    have "\<forall>n \<in> set deps. depends_along reg (n # name # visiting)"
      using deps "1.prems"(1) by simp
    from "1.IH" [OF unready False deps this inner] show ?thesis .
  qed
next
  case (2 reg visiting ready)
  then show ?case by simp
next
  case (3 reg visiting ready name names)
  show ?case
  proof (cases "visit reg visiting ready name")
    case (Inl e)
    with "3.prems"(2) have "visit reg visiting ready name = Inl (CycleError cycle)"
      by simp
    with "3.IH"(1) "3.prems"(1) show ?thesis by simp
  next
    case (Inr mid)
    with "3.prems"(2) have "visit_all reg visiting mid names = Inl (CycleError cycle)"
      by simp
    with "3.IH"(2) [OF Inr] "3.prems"(1) show ?thesis by simp
  qed
qed

lemma visit_unknown_is_unregistered:
  "visit reg visiting ready name = Inl (UnknownFixture missing) \<Longrightarrow> map_of reg missing = None"
  and visit_all_unknown_is_unregistered:
  "visit_all reg visiting ready names = Inl (UnknownFixture missing) \<Longrightarrow> map_of reg missing = None"
proof (induction reg visiting ready name and reg visiting ready names
    rule: visit_visit_all.induct)
  case (1 reg visiting ready name)
  then show ?case
    by (auto split: if_splits option.splits sum.splits)
next
  case (2 reg visiting ready)
  then show ?case by simp
next
  case (3 reg visiting ready name names)
  then show ?case
    by (auto split: sum.splits)
qed

text \<open>
  C8. For every registry and every list of declared fixture names, \<open>resolve\<close> returns (it
  is a total function, by the termination proof above), and its result is one of three:
  a setup order that is topological, without repetition, and contains every declared
  fixture; a \<open>CycleError\<close> whose chain follows the dependencies from a fixture back to
  itself; or the name of a fixture that is not registered.
\<close>

theorem resolve_orders_or_fails:
  "(case resolve reg testDecl of
      Inr order \<Rightarrow> topological reg order \<and> distinct order \<and> set testDecl \<subseteq> set order
    | Inl (CycleError cycle) \<Rightarrow>
        depends_along reg cycle \<and> cycle \<noteq> [] \<and> hd cycle \<in> set (tl cycle)
    | Inl (UnknownFixture name) \<Rightarrow> map_of reg name = None)"
proof (cases "resolve reg testDecl")
  case (Inr order)
  have "topological reg []"
    by (simp add: topological_def)
  from visit_all_extends_order [OF this, of "[]" testDecl order] Inr
  have "topological reg order \<and> set testDecl \<subseteq> set order"
    by (simp add: resolve_def)
  moreover from this have "distinct order"
    using setup_order_from_distinct by (auto simp: topological_def)
  ultimately show ?thesis
    using Inr by simp
next
  case (Inl e)
  show ?thesis
  proof (cases e)
    case (CycleError cycle)
    with Inl have "visit_all reg [] [] testDecl = Inl (CycleError cycle)"
      by (simp add: resolve_def)
    from visit_all_cycle_is_real [OF _ this] Inl CycleError show ?thesis
      by simp
  next
    case (UnknownFixture name)
    with Inl have "visit_all reg [] [] testDecl = Inl (UnknownFixture name)"
      by (simp add: resolve_def)
    from visit_all_unknown_is_unregistered [OF this] Inl UnknownFixture show ?thesis
      by simp
  qed
qed

theorem resolve_orders_or_fails_witness:
  "resolve customFixtures [''authenticatedUser'', ''browserHelper'']
     = Inr [''browser'', ''context'', ''page'', ''baseURL'', ''apiHelper'',
            ''authenticatedUser'', ''browserHelper'']
   \<and> topological customFixtures
        [''browser'', ''context'', ''page'', ''baseURL'', ''apiHelper'',
         ''authenticatedUser'', ''browserHelper'']
   \<and> resolve knotted [''account''] = Inl (CycleError [''account'', ''session'', ''token'', ''account''])
   \<and> depends_along knotted [''account'', ''session'', ''token'', ''account'']"
proof -
  have ok: "resolve customFixtures [''authenticatedUser'', ''browserHelper'']
     = Inr [''browser'', ''context'', ''page'', ''baseURL'', ''apiHelper'',
            ''authenticatedUser'', ''browserHelper'']"
    by code_simp
  have knot: "resolve knotted [''account'']
     = Inl (CycleError [''account'', ''session'', ''token'', ''account''])"
    by code_simp
  show ?thesis
    using ok knot
      resolve_orders_or_fails [of customFixtures "[''authenticatedUser'', ''browserHelper'']"]
      resolve_orders_or_fails [of knotted "[''account'']"]
    by simp
qed

end
